theory Spec2Isabelle
  imports Main
begin

section \<open>JavaScript strings\<close>

text \<open>
  A JavaScript string is a sequence of UTF-16 code units; every regular expression of the
  two route modules is written without the \<open>u\<close> flag and so works on code units. A code
  unit is modelled by its number. \<open>str\<close> embeds an ASCII literal.
\<close>

type_synonym jsstring = "nat list"

definition str :: "string \<Rightarrow> jsstring" where
  "str s = map of_char s"

text \<open>
  \<open>!v\<close> for a value that is a string, \<open>undefined\<close> or \<open>null\<close>: only a non-empty
  string is truthy. \<open>a || b\<close> yields \<open>a\<close> when it is truthy and \<open>b\<close> otherwise.
\<close>

definition truthy :: "jsstring option \<Rightarrow> bool" where
  "truthy v = (case v of None \<Rightarrow> False | Some s \<Rightarrow> s \<noteq> [])"

definition js_or :: "jsstring option \<Rightarrow> jsstring option \<Rightarrow> jsstring option" where
  "js_or a b = (if truthy a then a else b)"

text \<open>
  The code units matched by \<open>\s\<close> and removed by \<open>trim()\<close>: ECMAScript's WhiteSpace
  and LineTerminator productions.
\<close>

definition isWhiteSpace :: "nat \<Rightarrow> bool" where
  "isWhiteSpace c =
     (c = 9 \<or> c = 10 \<or> c = 11 \<or> c = 12 \<or> c = 13 \<or> c = 32 \<or> c = 160 \<or> c = 5760
      \<or> (8192 \<le> c \<and> c \<le> 8202) \<or> c = 8232 \<or> c = 8233 \<or> c = 8239 \<or> c = 8287
      \<or> c = 12288 \<or> c = 65279)"

definition trim :: "jsstring \<Rightarrow> jsstring" where
  "trim s = rev (dropWhile isWhiteSpace (rev (dropWhile isWhiteSpace s)))"

text \<open>
  \<open>s.replace(/<[^>]*>/g, '')\<close>. At a \<open><\<close> (60) the pattern matches up to the next
  \<open>>\<close> (62), whatever lies between; when no \<open>>\<close> follows, the pattern fails there
  and the \<open><\<close> is kept.
\<close>

function stripTags :: "jsstring \<Rightarrow> jsstring" where
  "stripTags [] = []"
| "stripTags (c # cs) =
     (if c = 60 \<and> 62 \<in> set cs
      then stripTags (tl (dropWhile (\<lambda>d. d \<noteq> 62) cs))
      else c # stripTags cs)"
  by pat_completeness auto
termination
proof (relation "measure length")
  show "wf (measure length)" by simp
next
  fix c :: nat and cs :: jsstring
  have "length (dropWhile (\<lambda>d. d \<noteq> 62) cs) \<le> length cs"
    by (rule length_dropWhile_le)
  then show "(tl (dropWhile (\<lambda>d. d \<noteq> 62) cs), c # cs) \<in> measure length"
    by simp
next
  fix c :: nat and cs :: jsstring
  show "(cs, c # cs) \<in> measure length" by simp
qed

text \<open>
  The restriction of \<open>toLowerCase()\<close> to the letters A to Z. The host's full Unicode
  mapping is a parameter \<open>lc\<close> of everything below that lower-cases; on strings of ASCII
  code units it is this function.
\<close>

definition asciiLower :: "jsstring \<Rightarrow> jsstring" where
  "asciiLower s = map (\<lambda>c. if 65 \<le> c \<and> c \<le> 90 then c + 32 else c) s"

section \<open>The pagination fetcher\<close>

text \<open>
  What a call that may throw comes back with: the message of the exception, or the value.
\<close>

datatype 'r outcome = Throws jsstring | Returns 'r

text \<open>
  One page of a connection: the edges, each a cursor and a node, and
  \<open>pageInfo.hasNextPage\<close>.
\<close>

record ('c, 'a) page =
  edges :: "('c \<times> 'a) list"
  hasNextPage :: bool

text \<open>
  The body of a GraphQL response to one of the two paginated queries: \<open>json.errors\<close>
  and \<open>json.data[dataPath]\<close>, each of which may be absent.
\<close>

record ('c, 'a) queryJson =
  errors :: "jsstring list option"
  pageData :: "('c, 'a) page option"

text \<open>
  \<open>admin.graphql(query, {variables: {first, after}})\<close> followed by
  \<open>response.json()\<close>, as a function of \<open>first\<close> and \<open>after\<close>.
\<close>

type_synonym ('c, 'a) graphql = "nat \<Rightarrow> 'c option \<Rightarrow> ('c, 'a) queryJson outcome"

text \<open>How a run of \<open>fetchPaginated\<close> on the generation page can fail.\<close>

datatype failure = Thrown jsstring | TypeError

text \<open>
  \<open>edges.length > 0 ? edges[edges.length - 1].cursor : null\<close>.
\<close>

definition lastCursor :: "('c \<times> 'a) list \<Rightarrow> 'c option" where
  "lastCursor es = (if es \<noteq> [] then Some (fst (last es)) else None)"

text \<open>
  The \<open>while (hasNextPage)\<close> loop of \<open>fetchPaginated\<close> in the loader of the
  generation page, entered with \<open>hasNextPage = true\<close>. The loop may run forever, in
  which case the value is \<open>None\<close>. Nothing catches an exception: a throwing call, or a
  response without \<open>data\<close>, ends the run with the failure. Besides the items, the
  result lists the \<open>after\<close> argument of every request sent, in order.
\<close>

partial_function (option) fetchLoop ::
  "('c, 'a) graphql \<Rightarrow> 'a list \<Rightarrow> 'c option \<Rightarrow> 'c option list
     \<Rightarrow> ((failure + 'a list) \<times> 'c option list) option" where
  "fetchLoop graphql items afterCursor sent =
     (case graphql 100 afterCursor of
        Throws e \<Rightarrow> Some (Inl (Thrown e), sent @ [afterCursor])
      | Returns json \<Rightarrow>
          (case pageData json of
             None \<Rightarrow> Some (Inl TypeError, sent @ [afterCursor])
           | Some pg \<Rightarrow>
               if hasNextPage pg
               then fetchLoop graphql (items @ map snd (edges pg)) (lastCursor (edges pg))
                      (sent @ [afterCursor])
               else Some (Inr (items @ map snd (edges pg)), sent @ [afterCursor])))"

definition fetchPaginated ::
  "('c, 'a) graphql \<Rightarrow> ((failure + 'a list) \<times> 'c option list) option" where
  "fetchPaginated graphql = fetchLoop graphql [] None []"

text \<open>
  The same loop in the loader of the dashboard. There the body sits in a \<open>try\<close> whose
  \<open>catch\<close> leaves the loop: a throwing call, a response with \<open>errors\<close> (an empty
  array is truthy too) or without \<open>data\<close> ends the run with the items read so far.
\<close>

partial_function (option) fetchLoopDashboard ::
  "('c, 'a) graphql \<Rightarrow> 'a list \<Rightarrow> 'c option \<Rightarrow> 'c option list
     \<Rightarrow> ('a list \<times> 'c option list) option" where
  "fetchLoopDashboard graphql items afterCursor sent =
     (case graphql 100 afterCursor of
        Throws e \<Rightarrow> Some (items, sent @ [afterCursor])
      | Returns json \<Rightarrow>
          if errors json \<noteq> None then Some (items, sent @ [afterCursor])
          else
            (case pageData json of
               None \<Rightarrow> Some (items, sent @ [afterCursor])
             | Some pg \<Rightarrow>
                 if hasNextPage pg
                 then fetchLoopDashboard graphql (items @ map snd (edges pg))
                        (lastCursor (edges pg)) (sent @ [afterCursor])
                 else Some (items @ map snd (edges pg), sent @ [afterCursor])))"

definition fetchPaginatedDashboard ::
  "('c, 'a) graphql \<Rightarrow> ('a list \<times> 'c option list) option" where
  "fetchPaginatedDashboard graphql = fetchLoopDashboard graphql [] None []"

text \<open>
  A synthetic cursor-paged source, as the property about the fetcher describes it: it
  holds the items \<open>xs\<close>, the cursor of an item is its index, and it serves at most
  \<open>P\<close> items a page, and no more than the request's \<open>first\<close>. A request with
  \<open>after = c\<close> is answered with the items that follow index \<open>c\<close>, and
  \<open>hasNextPage\<close> tells whether items remain after the page.
\<close>

definition pagedSource :: "'a list \<Rightarrow> nat \<Rightarrow> (nat, 'a) graphql" where
  "pagedSource xs P first after =
     (let start = (case after of None \<Rightarrow> 0 | Some c \<Rightarrow> Suc c);
          k = min first P;
          chunk = take k (drop start xs)
      in Returns \<lparr> errors = None,
                   pageData = Some \<lparr> edges = zip [start..<start + length chunk] chunk,
                                     hasNextPage = (start + k < length xs) \<rparr> \<rparr>)"

text \<open>
  The number of pages that \<open>n\<close> items make at \<open>k\<close> a page (one page when there is
  no item), and the \<open>after\<close> argument that belongs to page \<open>j\<close>, counted from 0:
  none for the first page, and for any other the cursor of the last item of the page
  before.
\<close>

definition pageCount :: "nat \<Rightarrow> nat \<Rightarrow> nat" where
  "pageCount k n = max 1 ((n + k - 1) div k)"

definition cursorBefore :: "nat \<Rightarrow> nat \<Rightarrow> nat option" where
  "cursorBefore k j = (if j = 0 then None else Some (j * k - 1))"

text \<open>Page \<open>j\<close> of the items \<open>xs\<close> at \<open>k\<close> a page, as the synthetic source serves it.\<close>

definition pageOf :: "'a list \<Rightarrow> nat \<Rightarrow> nat \<Rightarrow> (nat, 'a) page" where
  "pageOf xs k j =
     \<lparr> edges = zip [j * k..<j * k + length (take k (drop (j * k) xs))] (take k (drop (j * k) xs)),
       hasNextPage = (j * k + k < length xs) \<rparr>"

section \<open>Dashboard: the data model\<close>

record seo =
  seoTitle :: "jsstring option"
  seoDescription :: "jsstring option"

text \<open>A node of the products or collections query of the dashboard loader.\<close>

record node =
  nodeId :: jsstring
  title :: "jsstring option"
  status :: "jsstring option"
  description :: "jsstring option"
  descriptionHtml :: "jsstring option"
  nodeSeo :: "seo option"
  updatedAt :: "jsstring option"
  imageUrl :: "jsstring option"

text \<open>An element of the array that the content-origin store returns.\<close>

record originalContentRecord =
  originId :: jsstring
  contentType :: jsstring
  originalContent :: "jsstring option"
  originalContentHtml :: "jsstring option"

record row =
  rowId :: jsstring
  rowTitle :: "jsstring option"
  rowType :: jsstring
  rowStatus :: "jsstring option"
  currentDescription :: "jsstring option"
  currentDescriptionHtml :: "jsstring option"
  currentSeoTitle :: "jsstring option"
  currentSeoDescription :: "jsstring option"
  hasAiDescription :: bool
  hasAiSeo :: bool
  originalDescription :: "jsstring option"
  originalSeoDescription :: "jsstring option"
  hasOriginalContent :: bool
  rowUpdatedAt :: "jsstring option"
  rowImage :: "jsstring option"
  isDescriptionReverted :: bool
  isSeoReverted :: bool

record loaderData =
  items :: "row list"
  totalItems :: nat
  productCount :: nat
  collectionCount :: nat
  modifiedCount :: nat

section \<open>Dashboard: the reconciliation of the loader\<close>

text \<open>
  \<open>isContentReverted\<close> of the dashboard loader; \<open>lc\<close> is \<open>toLowerCase\<close>. Both
  sides are cleaned by \<open>s.replace(/<[^>]*>/g, '').trim().toLowerCase()\<close>.
\<close>

definition cleaned :: "(jsstring \<Rightarrow> jsstring) \<Rightarrow> jsstring \<Rightarrow> jsstring" where
  "cleaned lc s = lc (trim (stripTags s))"

definition isContentReverted ::
  "(jsstring \<Rightarrow> jsstring) \<Rightarrow> jsstring option \<Rightarrow> jsstring option \<Rightarrow> bool" where
  "isContentReverted lc current original =
     (case (current, original) of
        (Some cur, Some orig) \<Rightarrow>
          (if cur = [] \<or> orig = [] then False
           else cleaned lc cur = cleaned lc orig)
      | _ \<Rightarrow> False)"

text \<open>
  \<open>originalContents.find(oc => oc.originId === item.id && oc.contentType === kind)\<close>:
  the first record that matches, if any.
\<close>

definition findOriginal ::
  "originalContentRecord list \<Rightarrow> jsstring \<Rightarrow> jsstring \<Rightarrow> originalContentRecord option" where
  "findOriginal originalContents i kind =
     List.find (\<lambda>oc. originId oc = i \<and> contentType oc = kind) originalContents"

text \<open>\<open>item.seo?.description\<close>.\<close>

definition seoDescriptionOf :: "node \<Rightarrow> jsstring option" where
  "seoDescriptionOf n = (case nodeSeo n of None \<Rightarrow> None | Some s \<Rightarrow> seoDescription s)"

definition seoTitleOf :: "node \<Rightarrow> jsstring option" where
  "seoTitleOf n = (case nodeSeo n of None \<Rightarrow> None | Some s \<Rightarrow> seoTitle s)"

text \<open>
  The callback of \<open>products.map\<close> and of \<open>collections.map\<close>. The two differ in the
  type tag and in the status, which is the product's own and the constant \<open>'active'\<close>
  for a collection. \<open>None\<close> is the \<open>null\<close> that \<open>filter(Boolean)\<close> then drops.
\<close>

definition mkRow ::
  "(jsstring \<Rightarrow> jsstring) \<Rightarrow> jsstring \<Rightarrow> (node \<Rightarrow> jsstring option) \<Rightarrow>
   originalContentRecord list \<Rightarrow> node \<Rightarrow> row option" where
  "mkRow lc ty statusOf originalContents n =
     (let originalContentRec = findOriginal originalContents (nodeId n) (str ''description'');
          originalseoContent = findOriginal originalContents (nodeId n) (str ''seo-description'')
      in if originalContentRec = None \<and> originalseoContent = None then None
         else
           let hasAiDesc = (originalContentRec \<noteq> None);
               origDesc = (case originalContentRec of None \<Rightarrow> None
                           | Some oc \<Rightarrow> js_or (originalContentHtml oc) (originalContent oc));
               descReverted = (if hasAiDesc
                               then isContentReverted lc (descriptionHtml n) origDesc
                               else False);
               hasSeo = (originalseoContent \<noteq> None);
               origSeo = (case originalseoContent of None \<Rightarrow> None
                          | Some oc \<Rightarrow> originalContent oc);
               seoReverted = (if hasSeo
                              then isContentReverted lc
                                     (js_or (seoDescriptionOf n) (Some []))
                                     (js_or origSeo (Some []))
                              else False)
           in Some \<lparr> rowId = nodeId n,
                     rowTitle = title n,
                     rowType = ty,
                     rowStatus = statusOf n,
                     currentDescription = description n,
                     currentDescriptionHtml = descriptionHtml n,
                     currentSeoTitle = seoTitleOf n,
                     currentSeoDescription = js_or (seoDescriptionOf n) (Some []),
                     hasAiDescription = hasAiDesc,
                     hasAiSeo = hasSeo,
                     originalDescription = (if hasAiDesc then origDesc else None),
                     originalSeoDescription = (if hasSeo then origSeo else None),
                     hasOriginalContent = (hasAiDesc \<or> hasSeo),
                     rowUpdatedAt = updatedAt n,
                     rowImage = imageUrl n,
                     isDescriptionReverted = descReverted,
                     isSeoReverted = seoReverted \<rparr>)"

definition productRow ::
  "(jsstring \<Rightarrow> jsstring) \<Rightarrow> originalContentRecord list \<Rightarrow> node \<Rightarrow> row option" where
  "productRow lc originalContents product =
     mkRow lc (str ''product'') status originalContents product"

definition collectionRow ::
  "(jsstring \<Rightarrow> jsstring) \<Rightarrow> originalContentRecord list \<Rightarrow> node \<Rightarrow> row option" where
  "collectionRow lc originalContents collection =
     mkRow lc (str ''collection'') (\<lambda>_. Some (str ''active'')) originalContents collection"

definition allItems ::
  "(jsstring \<Rightarrow> jsstring) \<Rightarrow> node list \<Rightarrow> node list \<Rightarrow> originalContentRecord list \<Rightarrow> row list" where
  "allItems lc products collections originalContents =
     List.map_filter (productRow lc originalContents) products
     @ List.map_filter (collectionRow lc originalContents) collections"

text \<open>
  The object the loader returns once the catalog and the content-origin store have been
  read.
\<close>

definition loader ::
  "(jsstring \<Rightarrow> jsstring) \<Rightarrow> node list \<Rightarrow> node list \<Rightarrow> originalContentRecord list \<Rightarrow> loaderData" where
  "loader lc products collections originalContents =
     (let rows = allItems lc products collections originalContents
      in \<lparr> items = rows,
           totalItems = length rows,
           productCount =
             length (filter (\<lambda>p. list_ex (\<lambda>oc. originId oc = nodeId p) originalContents) products),
           collectionCount =
             length (filter (\<lambda>c. list_ex (\<lambda>oc. originId oc = nodeId c) originalContents) collections),
           modifiedCount = length rows \<rparr>)"

section \<open>Generation page: the content normalizer\<close>

text \<open>
  The response of the AI service as \<open>getGeneratedText\<close> sniffs it: a string, an object
  whose \<open>message\<close> is a string, or anything else. The third case carries whether the
  value is truthy and the text that
  \<open>JSON.stringify(response?.message || response || "", null, 2)\<close> yields for it.
\<close>

datatype response = RawText jsstring | Structured jsstring | Unknown bool jsstring

definition responseText :: "response \<Rightarrow> jsstring" where
  "responseText r = (case r of RawText s \<Rightarrow> s | Structured m \<Rightarrow> m | Unknown _ j \<Rightarrow> j)"

text \<open>\<open>replace(/,,/g, " ")\<close>; 44 is the comma, 32 the space.\<close>

fun replaceDoubleComma :: "jsstring \<Rightarrow> jsstring" where
  "replaceDoubleComma (c # d # cs) =
     (if c = 44 \<and> d = 44 then 32 # replaceDoubleComma cs
      else c # replaceDoubleComma (d # cs))"
| "replaceDoubleComma cs = cs"

text \<open>\<open>replace(/,\s*/g, " ")\<close>.\<close>

function replaceCommaSpaces :: "jsstring \<Rightarrow> jsstring" where
  "replaceCommaSpaces [] = []"
| "replaceCommaSpaces (c # cs) =
     (if c = 44 then 32 # replaceCommaSpaces (dropWhile isWhiteSpace cs)
      else c # replaceCommaSpaces cs)"
  by pat_completeness auto
termination
proof (relation "measure length")
  show "wf (measure length)" by simp
next
  fix c :: nat and cs :: jsstring
  have "length (dropWhile isWhiteSpace cs) \<le> length cs"
    by (rule length_dropWhile_le)
  then show "(dropWhile isWhiteSpace cs, c # cs) \<in> measure length"
    by simp
next
  fix c :: nat and cs :: jsstring
  show "(cs, c # cs) \<in> measure length" by simp
qed

text \<open>
  The first alternative of the quote pattern as the source file spells it: the three code
  units U+201A, U+00C4, U+00FB. The other alternatives are the ASCII double quote (34).
\<close>

definition quoteArtifact :: jsstring where
  "quoteArtifact = [8218, 196, 251]"

text \<open>\<open>replace(/<artifact>|"|"|"|"/g, "")\<close>.\<close>

fun removeQuotes :: "jsstring \<Rightarrow> jsstring" where
  "removeQuotes [] = []"
| "removeQuotes (c # cs) =
     (if take 3 (c # cs) = quoteArtifact then removeQuotes (drop 2 cs)
      else if c = 34 then removeQuotes cs
      else c # removeQuotes cs)"

text \<open>\<open>replace(/\[|\]/g, "")\<close>; 91 and 93 are the square brackets.\<close>

definition removeBrackets :: "jsstring \<Rightarrow> jsstring" where
  "removeBrackets s = filter (\<lambda>c. c \<noteq> 91 \<and> c \<noteq> 93) s"

text \<open>\<open>replace(/\\n/g, ' ')\<close>: a backslash (92) followed by the letter n (110).\<close>

fun replaceEscapedNewline :: "jsstring \<Rightarrow> jsstring" where
  "replaceEscapedNewline (c # d # cs) =
     (if c = 92 \<and> d = 110 then 32 # replaceEscapedNewline cs
      else c # replaceEscapedNewline (d # cs))"
| "replaceEscapedNewline cs = cs"

text \<open>\<open>replace(/\\/g, '')\<close>.\<close>

definition removeBackslashes :: "jsstring \<Rightarrow> jsstring" where
  "removeBackslashes s = filter (\<lambda>c. c \<noteq> 92) s"

text \<open>\<open>replace(/\s+/g, ' ')\<close>.\<close>

function collapseWhitespace :: "jsstring \<Rightarrow> jsstring" where
  "collapseWhitespace [] = []"
| "collapseWhitespace (c # cs) =
     (if isWhiteSpace c then 32 # collapseWhitespace (dropWhile isWhiteSpace cs)
      else c # collapseWhitespace cs)"
  by pat_completeness auto
termination
proof (relation "measure length")
  show "wf (measure length)" by simp
next
  fix c :: nat and cs :: jsstring
  have "length (dropWhile isWhiteSpace cs) \<le> length cs"
    by (rule length_dropWhile_le)
  then show "(dropWhile isWhiteSpace cs, c # cs) \<in> measure length"
    by simp
next
  fix c :: nat and cs :: jsstring
  show "(cs, c # cs) \<in> measure length" by simp
qed

text \<open>
  The bullet marker as the source file spells it: the three code units U+201A, U+00C4,
  U+00A2. The bullet character itself, U+2022, is the single code unit 8226.
\<close>

definition bulletMarker :: jsstring where
  "bulletMarker = [8218, 196, 162]"

text \<open>The dot of a pattern matches every code unit but the line terminators.\<close>

definition isLineTerminator :: "nat \<Rightarrow> bool" where
  "isLineTerminator c = (c = 10 \<or> c = 13 \<or> c = 8232 \<or> c = 8233)"

text \<open>
  Whether \<open>/<marker>.+/\<close> matches at the head of \<open>s\<close>: the marker and at least one
  code unit of the same line after it.
\<close>

definition bulletAt :: "jsstring \<Rightarrow> bool" where
  "bulletAt s =
     (take 3 s = bulletMarker
      \<and> (case drop 3 s of [] \<Rightarrow> False | d # _ \<Rightarrow> \<not> isLineTerminator d))"

text \<open>
  \<open>result.match(/<marker>.+/g)\<close>: the matches from left to right, each running to the
  end of its line. The empty list stands for \<open>null\<close>.
\<close>

function matchBullets :: "jsstring \<Rightarrow> jsstring list" where
  "matchBullets [] = []"
| "matchBullets (c # cs) =
     (if bulletAt (c # cs)
      then (bulletMarker @ takeWhile (\<lambda>d. \<not> isLineTerminator d) (drop 2 cs))
           # matchBullets (dropWhile (\<lambda>d. \<not> isLineTerminator d) (drop 2 cs))
      else matchBullets cs)"
  by pat_completeness auto
termination
proof (relation "measure length")
  show "wf (measure length)" by simp
next
  fix c :: nat and cs :: jsstring
  have "length (dropWhile (\<lambda>d. \<not> isLineTerminator d) (drop 2 cs)) \<le> length (drop 2 cs)"
    by (rule length_dropWhile_le)
  then show "(dropWhile (\<lambda>d. \<not> isLineTerminator d) (drop 2 cs), c # cs) \<in> measure length"
    by simp
next
  fix c :: nat and cs :: jsstring
  show "(cs, c # cs) \<in> measure length" by simp
qed

text \<open>\<open>result.replace(/<marker>.+/g, "")\<close>.\<close>

function removeBullets :: "jsstring \<Rightarrow> jsstring" where
  "removeBullets [] = []"
| "removeBullets (c # cs) =
     (if bulletAt (c # cs)
      then removeBullets (dropWhile (\<lambda>d. \<not> isLineTerminator d) (drop 2 cs))
      else c # removeBullets cs)"
  by pat_completeness auto
termination
proof (relation "measure length")
  show "wf (measure length)" by simp
next
  fix c :: nat and cs :: jsstring
  have "length (dropWhile (\<lambda>d. \<not> isLineTerminator d) (drop 2 cs)) \<le> length (drop 2 cs)"
    by (rule length_dropWhile_le)
  then show "(dropWhile (\<lambda>d. \<not> isLineTerminator d) (drop 2 cs), c # cs) \<in> measure length"
    by simp
next
  fix c :: nat and cs :: jsstring
  show "(cs, c # cs) \<in> measure length" by simp
qed

text \<open>
  \<open>point.replace(/<marker>\s*/, "")\<close>, without the \<open>g\<close> flag: the first occurrence
  only.
\<close>

fun stripBulletMarker :: "jsstring \<Rightarrow> jsstring" where
  "stripBulletMarker [] = []"
| "stripBulletMarker (c # cs) =
     (if take 3 (c # cs) = bulletMarker then dropWhile isWhiteSpace (drop 2 cs)
      else c # stripBulletMarker cs)"

text \<open>\<open>split("\n")\<close>; the empty string splits into one empty piece.\<close>

fun splitLines :: "jsstring \<Rightarrow> jsstring list" where
  "splitLines [] = [[]]"
| "splitLines (c # cs) =
     (if c = 10 then [] # splitLines cs
      else (case splitLines cs of [] \<Rightarrow> [[c]] | l # ls \<Rightarrow> (c # l) # ls))"

text \<open>The cleanup that precedes both modes.\<close>

definition basicCleanup :: "jsstring \<Rightarrow> jsstring" where
  "basicCleanup s = removeBrackets (removeQuotes (replaceCommaSpaces (replaceDoubleComma s)))"

text \<open>The branch of \<open>getGeneratedText\<close> for SEO descriptions, applied to \<open>result\<close>.\<close>

definition seoCleanup :: "jsstring \<Rightarrow> jsstring" where
  "seoCleanup result =
     collapseWhitespace (trim (basicCleanup
       (removeBackslashes (replaceEscapedNewline (stripTags result)))))"

text \<open>
  The rest of \<open>getGeneratedText\<close>, for regular descriptions. First the block guarded
  by \<open>if (bulletPoints)\<close>: the bullet lines are cut out and one list block is appended.
\<close>

definition appendBulletList :: "jsstring \<Rightarrow> jsstring" where
  "appendBulletList result =
     (let bulletPoints = matchBullets result
      in if bulletPoints \<noteq> []
         then removeBullets result
              @ str ''<ul>''
              @ concat (map (\<lambda>point. str ''<li>'' @ stripBulletMarker point @ str ''</li>'')
                          bulletPoints)
              @ str ''</ul>''
         else result)"

text \<open>
  Then \<open>split("\n").map(trim).filter(para && !para.startsWith("<li>")).map(wrap).join("")\<close>.
\<close>

definition wrapParagraphs :: "jsstring \<Rightarrow> jsstring" where
  "wrapParagraphs result =
     concat (map (\<lambda>para. str ''<p>'' @ para @ str ''</p>'')
               (filter (\<lambda>para. para \<noteq> [] \<and> take 4 para \<noteq> str ''<li>'')
                  (map trim (splitLines result))))"

definition descriptionFormat :: "jsstring \<Rightarrow> jsstring" where
  "descriptionFormat result = wrapParagraphs (appendBulletList result)"

text \<open>
  \<open>getGeneratedText(response, contentType)\<close>. The function also reads
  \<open>state.contentType\<close>, here the first argument; the \<open>contentType\<close> argument is
  \<open>None\<close> when the caller leaves it out.
\<close>

definition getGeneratedText :: "jsstring \<Rightarrow> response \<Rightarrow> jsstring option \<Rightarrow> jsstring" where
  "getGeneratedText kindOfState resp kindArg =
     (let result = basicCleanup (responseText resp)
      in if kindArg = Some (str ''seo-description'')
            \<or> kindOfState = str ''seo-description''
         then seoCleanup result
         else descriptionFormat result)"

section \<open>Generation page: the publish workflow\<close>

text \<open>
  The page-local state: the object held by \<open>useState\<close> and merged into by
  \<open>updateState\<close>, and the three toast variables that \<open>showToast\<close> sets. A handler
  reads the state as it was when the handler started and merges its updates in order.
  \<open>apiResponse\<close> is \<open>null\<close> at first; for \<open>getGeneratedText\<close> that is a falsy value
  of the third kind, whose serialization is the two quote characters.
\<close>

record genState =
  pageType :: jsstring
  stateContentType :: jsstring
  searchTerm :: jsstring
  selectedItem :: "node option"
  showDropdown :: bool
  seoKeywords :: jsstring
  isLoading :: bool
  apiResponse :: response
  error :: "jsstring option"
  isEditing :: bool
  editedContent :: jsstring
  isPublishing :: bool
  successMessage :: "jsstring option"
  toastActive :: bool
  toastMessage :: jsstring
  toastError :: bool

definition nullResponse :: response where
  "nullResponse = Unknown False [34, 34]"

text \<open>\<open>!!state.apiResponse\<close>.\<close>

definition responseTruthy :: "response \<Rightarrow> bool" where
  "responseTruthy r = (case r of RawText s \<Rightarrow> s \<noteq> [] | Structured _ \<Rightarrow> True | Unknown b _ \<Rightarrow> b)"

text \<open>
  What \<open>fetch\<close> resolves to: \<open>ok\<close>, \<open>status\<close>, \<open>statusText\<close>, and what reading the
  body (\<open>json()\<close> or \<open>text()\<close>) comes back with; the content of the body is only
  logged. A \<open>fetch\<close> that rejects is \<open>Throws\<close>.
\<close>

record httpResponse =
  ok :: bool
  responseStatus :: nat
  statusText :: jsstring
  bodyRead :: "unit outcome"

text \<open>The body of the POST to the content store and of the POST to the page's own action.\<close>

record externalApiPayload =
  payloadOriginalContent :: jsstring
  payloadContentType :: jsstring
  contentOrigin :: jsstring
  payloadOriginId :: jsstring

record updatePayload =
  payloadAction :: jsstring
  payloadItemId :: jsstring
  payloadPageType :: jsstring
  payloadSeoDescription :: "jsstring option"
  payloadDescription :: "jsstring option"

text \<open>
  What \<open>handlePublish\<close> does besides updating the state: the two requests, and the calls
  of \<open>console.error\<close> with their first argument.
\<close>

datatype event =
    ContentStorePost externalApiPayload
  | UpdatePost updatePayload
  | ConsoleError jsstring

text \<open>A number in a template literal: its decimal digits.\<close>

function decimal :: "nat \<Rightarrow> jsstring" where
  "decimal n = (if n < 10 then [48 + n] else decimal (n div 10) @ [48 + n mod 10])"
  by pat_completeness auto
termination
  by (relation "measure id") auto

text \<open>A string or \<open>undefined\<close> in a template literal.\<close>

definition interpolate :: "jsstring option \<Rightarrow> jsstring" where
  "interpolate v = (case v of None \<Rightarrow> str ''undefined'' | Some s \<Rightarrow> s)"

text \<open>
  Whether the first step, the POST to the content store, fails, and with which message:
  \<open>fetch\<close> rejects, or the response is not \<open>ok\<close> and the handler throws, or
  \<open>externalResponse.json()\<close> throws.
\<close>

definition externalFailure :: "httpResponse outcome \<Rightarrow> jsstring option" where
  "externalFailure externalFetch =
     (case externalFetch of
        Throws e \<Rightarrow> Some e
      | Returns r \<Rightarrow>
          if \<not> ok r
          then Some (str ''External API request failed: '' @ decimal (responseStatus r)
                       @ [32] @ statusText r)
          else (case bodyRead r of Throws e \<Rightarrow> Some e | Returns _ \<Rightarrow> None))"

text \<open>
  The inner \<open>try\<close> around the POST to the page's own action: every failure ends in a
  call of \<open>console.error\<close> and nothing else.
\<close>

definition shopifyUpdateLog :: "httpResponse outcome \<Rightarrow> event list" where
  "shopifyUpdateLog shopifyFetch =
     (case shopifyFetch of
        Throws e \<Rightarrow> [ConsoleError (str ''Error updating Shopify content:'')]
      | Returns r \<Rightarrow>
          if \<not> ok r
          then ConsoleError (str ''Failed to update content on Shopify'')
               # (case bodyRead r of
                    Throws e \<Rightarrow> [ConsoleError (str ''Error updating Shopify content:'')]
                  | Returns _ \<Rightarrow> [ConsoleError (str ''Shopify Error Response:'')])
          else (case bodyRead r of
                  Throws e \<Rightarrow> [ConsoleError (str ''Error updating Shopify content:'')]
                | Returns _ \<Rightarrow> []))"

text \<open>\<open>state.editedContent || getGeneratedText(state.apiResponse, state.contentType)\<close>.\<close>

definition generatedContentOf :: "genState \<Rightarrow> jsstring" where
  "generatedContentOf state =
     (if editedContent state \<noteq> [] then editedContent state
      else getGeneratedText (stateContentType state) (apiResponse state)
             (Some (stateContentType state)))"

text \<open>The baseline sent to the content store.\<close>

definition oldContentOf :: "genState \<Rightarrow> node \<Rightarrow> jsstring" where
  "oldContentOf state item =
     (if stateContentType state = str ''seo-description''
      then (case js_or (seoDescriptionOf item) (Some []) of None \<Rightarrow> [] | Some s \<Rightarrow> s)
      else (case js_or (descriptionHtml item) (js_or (description item) (Some [])) of
              None \<Rightarrow> [] | Some s \<Rightarrow> s))"

definition externalPayloadOf :: "genState \<Rightarrow> node \<Rightarrow> externalApiPayload" where
  "externalPayloadOf state item =
     \<lparr> payloadOriginalContent = oldContentOf state item,
       payloadContentType =
         (if stateContentType state = str ''seo-description'' then str ''seo-description''
          else str ''description''),
       contentOrigin = pageType state,
       payloadOriginId = nodeId item \<rparr>"

definition updatePayloadOf :: "genState \<Rightarrow> node \<Rightarrow> updatePayload" where
  "updatePayloadOf state item =
     \<lparr> payloadAction = str ''updateContent'',
       payloadItemId = nodeId item,
       payloadPageType = pageType state,
       payloadSeoDescription =
         (if stateContentType state = str ''seo-description''
          then Some (generatedContentOf state) else None),
       payloadDescription =
         (if stateContentType state = str ''seo-description''
          then None else Some (generatedContentOf state)) \<rparr>"

text \<open>The optimistic copy of the selected item.\<close>

definition updatedItemOf :: "genState \<Rightarrow> node \<Rightarrow> node" where
  "updatedItemOf state item =
     (if stateContentType state = str ''seo-description''
      then item\<lparr> nodeSeo := Some \<lparr> seoTitle = seoTitleOf item,
                                   seoDescription = Some (generatedContentOf state) \<rparr> \<rparr>
      else item\<lparr> description := Some (generatedContentOf state),
                 descriptionHtml := Some (generatedContentOf state) \<rparr>)"

definition publishedToast :: "genState \<Rightarrow> node \<Rightarrow> jsstring" where
  "publishedToast state item =
     (if stateContentType state = str ''seo-description'' then str ''SEO meta description''
      else str ''description'')
     @ str '' published successfully for '' @ interpolate (title item) @ str ''!''"

text \<open>
  \<open>handlePublish\<close>, given what the two requests come back with. The result is the state
  after the handler and the events in order.
\<close>

definition handlePublish ::
  "genState \<Rightarrow> httpResponse outcome \<Rightarrow> httpResponse outcome \<Rightarrow> genState \<times> event list" where
  "handlePublish state externalFetch shopifyFetch =
     (case selectedItem state of
        None \<Rightarrow>
          (state\<lparr> error :=
              Some (str ''Please select a product or collection to publish content.'') \<rparr>, [])
      | Some item \<Rightarrow>
          if \<not> responseTruthy (apiResponse state) \<and> editedContent state = []
          then (state\<lparr> error := Some (str ''Please generate content before publishing.'') \<rparr>, [])
          else
            let started = state\<lparr> isPublishing := True, error := None, successMessage := None \<rparr>
            in (case externalFailure externalFetch of
                 Some msg \<Rightarrow>
                   (started\<lparr> error :=
                               Some (if msg \<noteq> [] then msg
                                     else str ''Failed to publish content. Please try again.''),
                             isPublishing := False,
                             toastMessage := str ''Failed to publish content. Please try again.'',
                             toastError := True,
                             toastActive := True \<rparr>,
                    [ContentStorePost (externalPayloadOf state item),
                     ConsoleError (str ''Publish Error:'')])
               | None \<Rightarrow>
                   (started\<lparr> selectedItem := Some (updatedItemOf state item),
                             isPublishing := False,
                             toastMessage := publishedToast state item,
                             toastError := False,
                             toastActive := True \<rparr>,
                    [ContentStorePost (externalPayloadOf state item),
                     UpdatePost (updatePayloadOf state item)]
                    @ shopifyUpdateLog shopifyFetch)))"

text \<open>The events that are requests to the page's own action, which mutates the catalog.\<close>

definition isUpdatePost :: "event \<Rightarrow> bool" where
  "isUpdatePost e = (case e of UpdatePost _ \<Rightarrow> True | _ \<Rightarrow> False)"

text \<open>Whether the last step, the POST to the page's own action, fails.\<close>

definition shopifyFailure :: "httpResponse outcome \<Rightarrow> bool" where
  "shopifyFailure shopifyFetch =
     (case shopifyFetch of
        Throws e \<Rightarrow> True
      | Returns r \<Rightarrow> \<not> ok r \<or> (case bodyRead r of Throws e \<Rightarrow> True | Returns _ \<Rightarrow> False))"

section \<open>Dashboard: the revert handlers\<close>

text \<open>The JSON command that the dashboard submits and its action reads.\<close>

record revertBody =
  bodyAction :: "jsstring option"
  itemId :: "jsstring option"
  itemType :: "jsstring option"
  bodyOriginalContent :: "jsstring option"
  bodyContentType :: "jsstring option"

text \<open>The view state of the dashboard that the handlers touch.\<close>

record dashState =
  rows :: "row list"
  reverting :: "jsstring option"

text \<open>
  What a handler does besides updating the state: \<open>shopify.toast.show(message, {isError})\<close>
  and \<open>fetcher.submit\<close>, the only request a handler makes.
\<close>

datatype dashEvent = ToastShown jsstring bool | RevertSubmitted revertBody

definition handleRevertDescription :: "dashState \<Rightarrow> row \<Rightarrow> dashState \<times> dashEvent list" where
  "handleRevertDescription st item =
     (if isDescriptionReverted item
      then (st, [ToastShown
                   (str ''Description has already been reverted to original content'') False])
      else if \<not> hasAiDescription item \<or> \<not> truthy (originalDescription item)
      then (st, [ToastShown (str ''No original description available to revert'') True])
      else (st\<lparr> reverting := Some (rowId item @ str ''-description'') \<rparr>,
            [RevertSubmitted
               \<lparr> bodyAction = Some (str ''revert''),
                 itemId = Some (rowId item),
                 itemType = Some (rowType item),
                 bodyOriginalContent = originalDescription item,
                 bodyContentType = Some (str ''description'') \<rparr>]))"

definition handleRevertSeo :: "dashState \<Rightarrow> row \<Rightarrow> dashState \<times> dashEvent list" where
  "handleRevertSeo st item =
     (if isSeoReverted item
      then (st, [ToastShown
                   (str ''SEO description has already been reverted to original content'') False])
      else if \<not> hasAiSeo item \<or> \<not> truthy (originalSeoDescription item)
      then (st, [ToastShown (str ''No original SEO description available to revert'') True])
      else (st\<lparr> reverting := Some (rowId item @ str ''-seo'') \<rparr>,
            [RevertSubmitted
               \<lparr> bodyAction = Some (str ''revert''),
                 itemId = Some (rowId item),
                 itemType = Some (rowType item),
                 bodyOriginalContent = originalSeoDescription item,
                 bodyContentType = Some (str ''seo'') \<rparr>]))"

definition isRevertSubmitted :: "dashEvent \<Rightarrow> bool" where
  "isRevertSubmitted e = (case e of RevertSubmitted _ \<Rightarrow> True | _ \<Rightarrow> False)"

definition isErrorToast :: "dashEvent \<Rightarrow> bool" where
  "isErrorToast e = (case e of ToastShown _ isError \<Rightarrow> isError | _ \<Rightarrow> False)"

section \<open>Dashboard: the revert action\<close>

text \<open>
  A mutation document of the action: the mutation it calls and whether its selection set
  names \<open>userErrors\<close>. A GraphQL response holds the selected fields and no others.
\<close>

datatype mutationOp = ProductUpdate | CollectionUpdate

record mutationDoc =
  operation :: mutationOp
  selectsUserErrors :: bool

record mutationInput =
  inputId :: jsstring
  inputDescriptionHtml :: "jsstring option"
  inputSeoDescription :: "jsstring option"

record userError =
  errorField :: "jsstring option"
  errorMessage :: jsstring

text \<open>
  What the catalog does with a mutation: the call throws; or the response has no data for
  the mutation; or the mutation ran and reports its user errors, none when the field was
  written.
\<close>

datatype catalogResult = Rejected jsstring | NoData | Payload "userError list"

type_synonym catalog = "mutationOp \<Rightarrow> mutationInput \<Rightarrow> catalogResult"

datatype actionResponse =
    InvalidRequest
  | UserErrorsReported "userError list"
  | Reverted jsstring jsstring "jsstring option" jsstring
  | ServerError failure

definition httpStatus :: "actionResponse \<Rightarrow> nat" where
  "httpStatus r =
     (case r of InvalidRequest \<Rightarrow> 400 | UserErrorsReported _ \<Rightarrow> 400
      | Reverted _ _ _ _ \<Rightarrow> 200 | ServerError _ \<Rightarrow> 500)"

definition success :: "actionResponse \<Rightarrow> bool" where
  "success r = (case r of Reverted _ _ _ _ \<Rightarrow> True | _ \<Rightarrow> False)"

text \<open>
  The four branches that pick the mutation document and its variables. No branch is taken
  for any other item type or content type, and \<open>response\<close> stays \<open>undefined\<close>. Only the
  document for the SEO description of a collection leaves \<open>userErrors\<close> out.
\<close>

definition chooseMutation :: "revertBody \<Rightarrow> (mutationDoc \<times> mutationInput) option" where
  "chooseMutation body =
     (let i = (case itemId body of None \<Rightarrow> [] | Some s \<Rightarrow> s);
          descriptionInput = \<lparr> inputId = i, inputDescriptionHtml = bodyOriginalContent body,
                               inputSeoDescription = None \<rparr>;
          seoInput = \<lparr> inputId = i, inputDescriptionHtml = None,
                       inputSeoDescription = bodyOriginalContent body \<rparr>
      in if itemType body = Some (str ''product'') then
           (if bodyContentType body = Some (str ''description'')
            then Some (\<lparr> operation = ProductUpdate, selectsUserErrors = True \<rparr>, descriptionInput)
            else if bodyContentType body = Some (str ''seo'')
            then Some (\<lparr> operation = ProductUpdate, selectsUserErrors = True \<rparr>, seoInput)
            else None)
         else if itemType body = Some (str ''collection'') then
           (if bodyContentType body = Some (str ''description'')
            then Some (\<lparr> operation = CollectionUpdate, selectsUserErrors = True \<rparr>,
                       descriptionInput)
            else if bodyContentType body = Some (str ''seo'')
            then Some (\<lparr> operation = CollectionUpdate, selectsUserErrors = False \<rparr>, seoInput)
            else None)
         else None)"

text \<open>
  \<open>responseJson.data[updateKey].userErrors\<close>: present only when the document selects it.
\<close>

definition userErrorsField :: "mutationDoc \<Rightarrow> userError list \<Rightarrow> userError list option" where
  "userErrorsField doc errs = (if selectsUserErrors doc then Some errs else None)"

definition capitalize :: "jsstring \<Rightarrow> jsstring" where
  "capitalize s = (case s of [] \<Rightarrow> [] | c # cs \<Rightarrow> (if 97 \<le> c \<and> c \<le> 122 then c - 32 else c) # cs)"

text \<open>
  The action of the dashboard route, given the parsed body. Besides the response, the
  result lists the mutations sent to the catalog. Reading \<open>length\<close> of an absent
  \<open>userErrors\<close>, or \<open>json\<close> of an absent response, throws a TypeError, which the
  \<open>catch\<close> of the action turns into the response with status 500.
\<close>

definition action ::
  "catalog \<Rightarrow> revertBody \<Rightarrow> actionResponse \<times> (mutationDoc \<times> mutationInput) list" where
  "action catalog body =
     (if bodyAction body \<noteq> Some (str ''revert'') \<or> \<not> truthy (itemId body)
         \<or> \<not> truthy (itemType body) \<or> \<not> truthy (bodyOriginalContent body)
      then (InvalidRequest, [])
      else
        (case chooseMutation body of
          None \<Rightarrow> (ServerError TypeError, [])
        | Some (doc, input) \<Rightarrow>
            (case catalog (operation doc) input of
               Rejected e \<Rightarrow> (ServerError (Thrown e), [(doc, input)])
             | NoData \<Rightarrow> (ServerError TypeError, [(doc, input)])
             | Payload errs \<Rightarrow>
                 (case userErrorsField doc errs of
                    None \<Rightarrow> (ServerError TypeError, [(doc, input)])
                  | Some es \<Rightarrow>
                      if length es > 0 then (UserErrorsReported es, [(doc, input)])
                      else (Reverted (interpolate (itemId body)) (interpolate (itemType body))
                              (bodyContentType body)
                              (capitalize (interpolate (itemType body)) @ [32]
                               @ interpolate (bodyContentType body)
                               @ str '' reverted successfully to original content.''),
                            [(doc, input)])))))"

section \<open>Predicates on normalized text\<close>

text \<open>Whether the quote artifact occurs in a string.\<close>

fun containsArtifact :: "jsstring \<Rightarrow> bool" where
  "containsArtifact [] = False"
| "containsArtifact (c # cs) = (take 3 (c # cs) = quoteArtifact \<or> containsArtifact cs)"

text \<open>No \<open><\<close> of the string is followed, anywhere later, by a \<open>>\<close>.\<close>

definition noTag :: "jsstring \<Rightarrow> bool" where
  "noTag s = (62 \<notin> set (dropWhile (\<lambda>c. c \<noteq> 60) s))"

text \<open>
  \<open>softened xs ys\<close>: \<open>ys\<close> arises from \<open>xs\<close> by deleting code units and by putting
  a space in the place of others.
\<close>

inductive softened :: "jsstring \<Rightarrow> jsstring \<Rightarrow> bool" where
  nil: "softened [] []"
| drop: "softened xs ys \<Longrightarrow> softened (x # xs) ys"
| keep: "softened xs ys \<Longrightarrow> softened (x # xs) (x # ys)"
| blank: "softened xs ys \<Longrightarrow> softened (x # xs) (32 # ys)"

text \<open>A string that neither starts nor ends with white space.\<close>

definition edgesClean :: "jsstring \<Rightarrow> bool" where
  "edgesClean s = (s = [] \<or> (\<not> isWhiteSpace (hd s) \<and> \<not> isWhiteSpace (last s)))"

text \<open>What every result of the SEO branch satisfies.\<close>

definition seoClean :: "jsstring \<Rightarrow> bool" where
  "seoClean t = (44 \<notin> set t \<and> 34 \<notin> set t \<and> 91 \<notin> set t \<and> 93 \<notin> set t \<and> 92 \<notin> set t
                 \<and> noTag t \<and> edgesClean t \<and> collapseWhitespace t = t)"

section \<open>Example responses\<close>

text \<open>
  The message \<open>"\<bullet> Durable\n\<bullet> Dishwasher safe"\<close> with the bullet character U+2022, and
  the same message with the marker as the source file spells it.
\<close>

definition bulletMessage :: jsstring where
  "bulletMessage = [8226, 32] @ str ''Durable'' @ [10, 8226, 32] @ str ''Dishwasher safe''"

definition markerMessage :: jsstring where
  "markerMessage =
     bulletMarker @ [32] @ str ''Durable'' @ [10] @ bulletMarker @ [32] @ str ''Dishwasher safe''"

text \<open>
  Two opening halves of the quote artifact, a tag, and two closing halves. Stripping the
  tag joins the halves.
\<close>

definition nestedArtifact :: jsstring where
  "nestedArtifact = [8218, 8218] @ str ''<b>'' @ [196, 251, 196, 251]"

text \<open>A text with markup tags, a comma and an escaped newline (backslash, n).\<close>

definition taggedText :: jsstring where
  "taggedText = str ''<p>Soft,  warm</p>'' @ [92, 110] @ str ''<b>wool</b> ''"

section \<open>Example catalog items and records\<close>

definition helloProduct :: node where
  "helloProduct =
     \<lparr> nodeId = str ''gid://shopify/Product/1'', title = Some (str ''Blue Mug''),
       status = Some (str ''ACTIVE''), description = Some (str ''Hello World''),
       descriptionHtml = Some (str ''<p>Hello World</p>''), nodeSeo = None,
       updatedAt = None, imageUrl = None \<rparr>"

definition helloOriginal :: originalContentRecord where
  "helloOriginal =
     \<lparr> originId = str ''gid://shopify/Product/1'', contentType = str ''description'',
       originalContent = Some (str ''Hello World''), originalContentHtml = None \<rparr>"

text \<open>A product whose description is empty, and the baseline recorded from it.\<close>

definition emptyProduct :: node where
  "emptyProduct =
     \<lparr> nodeId = str ''gid://shopify/Product/2'', title = Some (str ''Plain Mug''),
       status = Some (str ''ACTIVE''), description = Some [], descriptionHtml = Some [],
       nodeSeo = None, updatedAt = None, imageUrl = None \<rparr>"

definition emptyOriginal :: originalContentRecord where
  "emptyOriginal =
     \<lparr> originId = str ''gid://shopify/Product/2'', contentType = str ''description'',
       originalContent = Some [], originalContentHtml = None \<rparr>"

text \<open>A record of the store whose kind is neither of the two the dashboard reads.\<close>

definition titleKindRecord :: originalContentRecord where
  "titleKindRecord =
     \<lparr> originId = str ''gid://shopify/Product/2'', contentType = str ''title'',
       originalContent = Some (str ''Plain Mug''), originalContentHtml = None \<rparr>"

section \<open>Example sessions and requests\<close>

text \<open>
  A generation session with \<open>helloProduct\<close> selected and generated text staged for its
  description.
\<close>

definition readyState :: genState where
  "readyState =
     \<lparr> pageType = str ''product'', stateContentType = str ''description'',
       searchTerm = str ''Blue Mug'', selectedItem = Some helloProduct, showDropdown = False,
       seoKeywords = str ''ceramic'', isLoading = False,
       apiResponse = Structured (str ''A sturdy mug''), error = None, isEditing = False,
       editedContent = str ''<p>A sturdy mug</p>'', isPublishing = False,
       successMessage = None, toastActive = False, toastMessage = [], toastError = False \<rparr>"

definition serverDown :: "httpResponse outcome" where
  "serverDown =
     Returns \<lparr> ok = False, responseStatus = 503, statusText = str ''Service Unavailable'',
               bodyRead = Returns () \<rparr>"

definition accepted :: "httpResponse outcome" where
  "accepted =
     Returns \<lparr> ok = True, responseStatus = 200, statusText = str ''OK'', bodyRead = Returns () \<rparr>"

text \<open>A dashboard row whose description is flagged as reverted already.\<close>

definition revertedRow :: row where
  "revertedRow =
     \<lparr> rowId = str ''gid://shopify/Product/1'', rowTitle = Some (str ''Blue Mug''),
       rowType = str ''product'', rowStatus = Some (str ''ACTIVE''),
       currentDescription = Some (str ''Hello World''),
       currentDescriptionHtml = Some (str ''<p>Hello World</p>''),
       currentSeoTitle = None, currentSeoDescription = Some (str ''Hello''),
       hasAiDescription = True, hasAiSeo = True,
       originalDescription = Some (str ''Hello World''),
       originalSeoDescription = Some (str ''Hello''),
       hasOriginalContent = True, rowUpdatedAt = None, rowImage = None,
       isDescriptionReverted = True, isSeoReverted = True \<rparr>"

text \<open>
  The request to revert the SEO description of a collection, and a catalog that carries
  out every mutation without user errors.
\<close>

definition collectionSeoRevert :: revertBody where
  "collectionSeoRevert =
     \<lparr> bodyAction = Some (str ''revert''), itemId = Some (str ''gid://shopify/Collection/7''),
       itemType = Some (str ''collection''), bodyOriginalContent = Some (str ''Summer mugs''),
       bodyContentType = Some (str ''seo'') \<rparr>"

definition obligingCatalog :: catalog where
  "obligingCatalog op input = Payload []"

section \<open>Properties of the reconciliation\<close>

lemma kinds_differ: "str ''description'' \<noteq> str ''seo-description''"
  by (simp add: str_def)

lemma findOriginal_None:
  "(findOriginal ocs i k = None) = (\<not> (\<exists>oc\<in>set ocs. originId oc = i \<and> contentType oc = k))"
  by (auto simp: findOriginal_def find_None_iff)

lemma mkRow_fields:
  assumes "mkRow lc ty st ocs n = Some r"
  shows "hasAiDescription r = (findOriginal ocs (nodeId n) (str ''description'') \<noteq> None)"
    and "hasAiSeo r = (findOriginal ocs (nodeId n) (str ''seo-description'') \<noteq> None)"
    and "rowId r = nodeId n"
    and "rowType r = ty"
    and "isDescriptionReverted r =
          (case findOriginal ocs (nodeId n) (str ''description'') of None \<Rightarrow> False
           | Some oc \<Rightarrow> isContentReverted lc (descriptionHtml n)
                          (js_or (originalContentHtml oc) (originalContent oc)))"
    and "isSeoReverted r =
          (case findOriginal ocs (nodeId n) (str ''seo-description'') of None \<Rightarrow> False
           | Some oc \<Rightarrow> isContentReverted lc (js_or (seoDescriptionOf n) (Some []))
                          (js_or (originalContent oc) (Some [])))"
proof -
  let ?d = "findOriginal ocs (nodeId n) (str ''description'')"
  let ?s = "findOriginal ocs (nodeId n) (str ''seo-description'')"
  have ne: "\<not> (?d = None \<and> ?s = None)"
    using assms unfolding mkRow_def Let_def by (simp split: if_splits)
  have r: "Some r = mkRow lc ty st ocs n" using assms by simp
  show "hasAiDescription r = (?d \<noteq> None)"
    using ne r unfolding mkRow_def Let_def by (simp split: if_splits)
  show "hasAiSeo r = (?s \<noteq> None)"
    using ne r unfolding mkRow_def Let_def by (simp split: if_splits)
  show "rowId r = nodeId n"
    using ne r unfolding mkRow_def Let_def by (simp split: if_splits)
  show "rowType r = ty"
    using ne r unfolding mkRow_def Let_def by (simp split: if_splits)
  show "isDescriptionReverted r = (case ?d of None \<Rightarrow> False
           | Some oc \<Rightarrow> isContentReverted lc (descriptionHtml n)
                          (js_or (originalContentHtml oc) (originalContent oc)))"
    using ne r unfolding mkRow_def Let_def by (cases ?d) (simp_all split: if_splits)
  show "isSeoReverted r = (case ?s of None \<Rightarrow> False
           | Some oc \<Rightarrow> isContentReverted lc (js_or (seoDescriptionOf n) (Some []))
                          (js_or (originalContent oc) (Some [])))"
    using ne r unfolding mkRow_def Let_def by (cases ?s) (simp_all split: if_splits)
qed

lemma isContentReverted_iff:
  "isContentReverted lc a b =
     (truthy a \<and> truthy b
      \<and> map_option (cleaned lc) a = map_option (cleaned lc) b)"
  by (cases a; cases b) (simp_all add: isContentReverted_def truthy_def)

lemma isContentReverted_or_empty:
  "isContentReverted lc (js_or a (Some [])) (js_or b (Some [])) = isContentReverted lc a b"
  by (cases a; cases b) (simp_all add: isContentReverted_def truthy_def js_or_def)

lemma mkRow_Some_iff:
  "(mkRow lc ty st ocs n \<noteq> None) =
   (\<exists>oc\<in>set ocs. originId oc = nodeId n \<and>
       (contentType oc = str ''description'' \<or> contentType oc = str ''seo-description''))"
  unfolding mkRow_def Let_def by (auto simp: findOriginal_None)

lemma map_filter_ids:
  assumes "\<And>x y. f x = Some y \<Longrightarrow> g y = h x" and "\<And>x. (f x \<noteq> None) = P x"
  shows "map g (List.map_filter f xs) = map h (filter P xs)"
proof (induction xs)
  case Nil
  show ?case by simp
next
  case (Cons x xs)
  show ?case
  proof (cases "f x")
    case None
    with assms(2)[of x] Cons show ?thesis by simp
  next
    case (Some y)
    with assms(2)[of x] assms(1)[of x y] Cons show ?thesis
      by simp
  qed
qed

lemma find_hello:
  "findOriginal [helloOriginal] (nodeId helloProduct) (str ''description'') = Some helloOriginal"
  by (simp add: findOriginal_def helloOriginal_def helloProduct_def)

lemma find_empty:
  "findOriginal [emptyOriginal] (nodeId emptyProduct) (str ''description'') = Some emptyOriginal"
  "findOriginal [emptyOriginal] (nodeId emptyProduct) (str ''seo-description'') = None"
  using kinds_differ by (simp_all add: findOriginal_def emptyOriginal_def emptyProduct_def)

lemma hello_reverted:
  "isContentReverted lc (Some (str ''<p>Hello World</p>'')) (Some (str ''Hello World''))"
  by (simp add: isContentReverted_def cleaned_def str_def)

lemma globe_not_reverted:
  "\<not> isContentReverted asciiLower (Some (str ''<p>Hello Globe</p>'')) (Some (str ''Hello World''))"
  by (simp add: isContentReverted_def cleaned_def str_def trim_def isWhiteSpace_def
      asciiLower_def)

text \<open>
  C1, as the claim states it, fails. The product \<open>emptyProduct\<close> has the empty
  description; the baseline \<open>emptyOriginal\<close> recorded for it is empty too. The two
  values are equal after stripping tags, trimming and lower-casing, and yet the row the
  loader builds has \<open>isDescriptionReverted = false\<close>: the guard
  \<open>if (!current || !original) return false\<close> answers before any comparison.
\<close>

theorem reverted_flag_false_on_empty_sides:
  "map_option isDescriptionReverted (productRow asciiLower [emptyOriginal] emptyProduct)
     = Some False
   \<and> map_option (cleaned asciiLower) (descriptionHtml emptyProduct)
     = map_option (cleaned asciiLower) (originalContent emptyOriginal)"
proof -
  have d: "descriptionHtml emptyProduct = Some []" by (simp add: emptyProduct_def)
  have o: "originalContent emptyOriginal = Some []" by (simp add: emptyOriginal_def)
  have h: "originalContentHtml emptyOriginal = None" by (simp add: emptyOriginal_def)
  have "map_option isDescriptionReverted (productRow asciiLower [emptyOriginal] emptyProduct)
          = Some False"
    unfolding productRow_def mkRow_def Let_def find_empty
    by (simp add: d o h isContentReverted_def js_or_def truthy_def)
  then show ?thesis by (simp add: d o)
qed

text \<open>
  C1, amended. For a row built from a product or a collection \<open>n\<close> and the first record
  \<open>oc\<close> of a kind that matches it, the reverted flag of that kind is true if and only if
  the current value and the original value are both present and non-empty and are equal
  after stripping tags, trimming and lower-casing. The current value is \<open>descriptionHtml\<close>
  for the description and \<open>seo.description\<close> for the SEO description; the original
  value is \<open>originalContentHtml || originalContent\<close> for the description and
  \<open>originalContent\<close> for the SEO description. Original \<open>Hello World\<close> against current
  \<open><p>Hello World</p>\<close> is reverted, against \<open><p>Hello Globe</p>\<close> it is not.
\<close>

theorem reverted_flag_iff_nonempty_and_normalised_equal:
  "(productRow lc ocs n = Some r \<or> collectionRow lc ocs n = Some r \<longrightarrow>
      (\<forall>oc. findOriginal ocs (nodeId n) (str ''description'') = Some oc \<longrightarrow>
         isDescriptionReverted r =
           (truthy (descriptionHtml n)
            \<and> truthy (js_or (originalContentHtml oc) (originalContent oc))
            \<and> map_option (cleaned lc) (descriptionHtml n)
              = map_option (cleaned lc)
                  (js_or (originalContentHtml oc) (originalContent oc))))
      \<and> (\<forall>oc. findOriginal ocs (nodeId n) (str ''seo-description'') = Some oc \<longrightarrow>
         isSeoReverted r =
           (truthy (seoDescriptionOf n) \<and> truthy (originalContent oc)
            \<and> map_option (cleaned lc) (seoDescriptionOf n)
              = map_option (cleaned lc) (originalContent oc))))
   \<and> isContentReverted lc (Some (str ''<p>Hello World</p>'')) (Some (str ''Hello World''))
   \<and> \<not> isContentReverted asciiLower (Some (str ''<p>Hello Globe</p>''))
         (Some (str ''Hello World''))"
proof -
  have rows: "isDescriptionReverted r =
           (truthy (descriptionHtml n)
            \<and> truthy (js_or (originalContentHtml oc) (originalContent oc))
            \<and> map_option (cleaned lc) (descriptionHtml n)
              = map_option (cleaned lc)
                  (js_or (originalContentHtml oc) (originalContent oc)))"
    if "mkRow lc ty st ocs n = Some r"
      and "findOriginal ocs (nodeId n) (str ''description'') = Some oc" for ty st oc
    using mkRow_fields(5)[OF that(1)] that(2) by (simp add: isContentReverted_iff)
  have seos: "isSeoReverted r =
           (truthy (seoDescriptionOf n) \<and> truthy (originalContent oc)
            \<and> map_option (cleaned lc) (seoDescriptionOf n)
              = map_option (cleaned lc) (originalContent oc))"
    if "mkRow lc ty st ocs n = Some r"
      and "findOriginal ocs (nodeId n) (str ''seo-description'') = Some oc" for ty st oc
  proof -
    have "isSeoReverted r = isContentReverted lc (seoDescriptionOf n) (originalContent oc)"
      using mkRow_fields(6)[OF that(1)] that(2) by (simp add: isContentReverted_or_empty)
    then show ?thesis by (simp add: isContentReverted_iff)
  qed
  show ?thesis
    using rows seos hello_reverted globe_not_reverted
    unfolding productRow_def collectionRow_def by blast
qed

theorem reverted_flag_iff_nonempty_and_normalised_equal_witness:
  "\<exists>r. productRow asciiLower [helloOriginal] helloProduct = Some r \<and> isDescriptionReverted r"
proof -
  have "mkRow asciiLower (str ''product'') status [helloOriginal] helloProduct \<noteq> None"
    unfolding mkRow_def Let_def find_hello by simp
  then obtain r where r: "productRow asciiLower [helloOriginal] helloProduct = Some r"
    unfolding productRow_def by blast
  have d: "descriptionHtml helloProduct = Some (str ''<p>Hello World</p>'')"
    by (simp add: helloProduct_def)
  have o: "js_or (originalContentHtml helloOriginal) (originalContent helloOriginal)
             = Some (str ''Hello World'')"
    by (simp add: helloOriginal_def js_or_def truthy_def)
  have "isDescriptionReverted r =
           (truthy (descriptionHtml helloProduct)
            \<and> truthy (js_or (originalContentHtml helloOriginal) (originalContent helloOriginal))
            \<and> map_option (cleaned asciiLower) (descriptionHtml helloProduct)
              = map_option (cleaned asciiLower)
                  (js_or (originalContentHtml helloOriginal) (originalContent helloOriginal)))"
    using reverted_flag_iff_nonempty_and_normalised_equal
            [of asciiLower "[helloOriginal]" helloProduct r] r find_hello
    by blast
  then have "isDescriptionReverted r"
    unfolding d o by (simp add: truthy_def cleaned_def str_def)
  with r show ?thesis by blast
qed

section \<open>Properties of the dashboard rows and counts\<close>

text \<open>
  C2. The loader emits a row for a product or a collection if and only if some record of
  the content-origin store carries the item's identifier and the kind \<open>description\<close> or
  \<open>seo-description\<close>. In an emitted row \<open>hasAiDescription\<close> tells whether a record of
  kind \<open>description\<close> matches the item and \<open>hasAiSeo\<close> whether one of kind
  \<open>seo-description\<close> does; so with a record of exactly one kind, exactly that flag is
  true. The rows of the dashboard are, in order, those of the products and then those of
  the collections that have such a record.
\<close>

theorem row_emitted_iff_record_matches:
  "(productRow lc ocs n \<noteq> None) =
     (\<exists>oc\<in>set ocs. originId oc = nodeId n \<and>
        (contentType oc = str ''description'' \<or> contentType oc = str ''seo-description''))
   \<and> (collectionRow lc ocs n \<noteq> None) =
     (\<exists>oc\<in>set ocs. originId oc = nodeId n \<and>
        (contentType oc = str ''description'' \<or> contentType oc = str ''seo-description''))
   \<and> (productRow lc ocs n = Some r \<or> collectionRow lc ocs n = Some r \<longrightarrow>
        hasAiDescription r =
          (\<exists>oc\<in>set ocs. originId oc = nodeId n \<and> contentType oc = str ''description'')
        \<and> hasAiSeo r =
          (\<exists>oc\<in>set ocs. originId oc = nodeId n \<and> contentType oc = str ''seo-description''))
   \<and> map rowId (allItems lc products collections ocs) =
       map nodeId (filter (\<lambda>p. \<exists>oc\<in>set ocs. originId oc = nodeId p \<and>
             (contentType oc = str ''description'' \<or> contentType oc = str ''seo-description''))
           products)
       @ map nodeId (filter (\<lambda>c. \<exists>oc\<in>set ocs. originId oc = nodeId c \<and>
             (contentType oc = str ''description'' \<or> contentType oc = str ''seo-description''))
           collections)"
proof -
  have flags: "hasAiDescription r =
          (\<exists>oc\<in>set ocs. originId oc = nodeId n \<and> contentType oc = str ''description'')
        \<and> hasAiSeo r =
          (\<exists>oc\<in>set ocs. originId oc = nodeId n \<and> contentType oc = str ''seo-description'')"
    if "mkRow lc ty st ocs n = Some r" for ty st
    using mkRow_fields(1,2)[OF that] by (simp add: findOriginal_None)
  have ids: "map rowId (List.map_filter (mkRow lc ty st ocs) xs) =
       map nodeId (filter (\<lambda>p. \<exists>oc\<in>set ocs. originId oc = nodeId p \<and>
             (contentType oc = str ''description'' \<or> contentType oc = str ''seo-description''))
           xs)" for ty st xs
    by (rule map_filter_ids) (simp_all add: mkRow_fields(3) mkRow_Some_iff del: not_None_eq)
  show ?thesis
    unfolding allItems_def productRow_def collectionRow_def
    using flags ids by (auto simp: mkRow_Some_iff simp del: not_None_eq)
qed

theorem row_emitted_iff_record_matches_witness:
  "\<exists>r. productRow asciiLower [emptyOriginal] emptyProduct = Some r
       \<and> hasAiDescription r \<and> \<not> hasAiSeo r"
proof -
  have m: "originId emptyOriginal = nodeId emptyProduct"
      "contentType emptyOriginal = str ''description''"
    by (simp_all add: emptyOriginal_def emptyProduct_def)
  have "productRow asciiLower [emptyOriginal] emptyProduct \<noteq> None"
    using row_emitted_iff_record_matches[of asciiLower "[emptyOriginal]" emptyProduct] m
    by simp
  then obtain r where r: "productRow asciiLower [emptyOriginal] emptyProduct = Some r"
    by blast
  have "hasAiDescription r \<and> \<not> hasAiSeo r"
    using row_emitted_iff_record_matches[of asciiLower "[emptyOriginal]" emptyProduct r]
      r m kinds_differ by simp
  with r show ?thesis by blast
qed

text \<open>
  C4. The counts are claimed to equal the numbers of rows emitted, also when a record's
  kind is neither \<open>description\<close> nor \<open>seo-description\<close>. With the one product
  \<open>emptyProduct\<close> and the one record \<open>titleKindRecord\<close>, of kind \<open>title\<close>, the
  loader emits no row and reports \<open>modifiedCount = 0\<close>, yet \<open>productCount = 1\<close>:
  the filter behind \<open>productCount\<close> compares the identifier only. The same holds for
  \<open>collectionCount\<close> when the item is passed as a collection.
\<close>

theorem counts_ignore_record_kind:
  "productCount (loader asciiLower [emptyProduct] [] [titleKindRecord]) = 1
   \<and> items (loader asciiLower [emptyProduct] [] [titleKindRecord]) = []
   \<and> modifiedCount (loader asciiLower [emptyProduct] [] [titleKindRecord]) = 0
   \<and> collectionCount (loader asciiLower [] [emptyProduct] [titleKindRecord]) = 1
   \<and> items (loader asciiLower [] [emptyProduct] [titleKindRecord]) = []"
proof -
  have k: "str ''title'' \<noteq> str ''description''" "str ''title'' \<noteq> str ''seo-description''"
    by (simp_all add: str_def)
  have m: "originId titleKindRecord = nodeId emptyProduct"
    by (simp add: titleKindRecord_def emptyProduct_def)
  have c: "contentType titleKindRecord = str ''title''"
    by (simp add: titleKindRecord_def)
  have none: "mkRow asciiLower ty st [titleKindRecord] emptyProduct = None" for ty st
    using mkRow_Some_iff[of asciiLower ty st "[titleKindRecord]" emptyProduct] k c by simp
  show ?thesis
    by (simp add: loader_def allItems_def productRow_def collectionRow_def none m Let_def)
qed

section \<open>Properties of the content normalizer\<close>

inductive_cases softened_NilE: "softened [] zs"
inductive_cases softened_ConsE: "softened (y # ys) zs"

lemma softened_refl: "softened xs xs"
  by (induction xs) (auto intro: softened.intros)

lemma softened_trans: "softened xs ys \<Longrightarrow> softened ys zs \<Longrightarrow> softened xs zs"
proof (induction arbitrary: zs rule: softened.induct)
  case nil
  then show ?case by simp
next
  case (drop xs ys x)
  then show ?case by (auto intro: softened.intros)
next
  case (keep xs ys x)
  from keep.prems show ?case
    by (rule softened_ConsE) (auto intro: softened.intros keep.IH)
next
  case (blank xs ys x)
  from blank.prems show ?case
    by (rule softened_ConsE) (auto intro: softened.intros blank.IH)
qed

lemma softened_set: "softened xs ys \<Longrightarrow> set ys \<subseteq> insert 32 (set xs)"
  by (induction rule: softened.induct) auto

lemma softened_length: "softened xs ys \<Longrightarrow> length ys \<le> length xs"
  by (induction rule: softened.induct) auto

lemma softened_dropWhile: "softened xs (dropWhile P xs)"
  by (induction xs) (auto intro: softened.intros softened_refl)

lemma softened_drop: "softened xs (drop n xs)"
proof (induction xs arbitrary: n)
  case Nil
  show ?case by (simp add: softened.nil)
next
  case (Cons x xs)
  show ?case by (cases n) (auto intro: softened.intros softened_refl Cons)
qed

lemma softened_Nil: "softened xs []"
  by (induction xs) (auto intro: softened.intros)

lemma softened_take: "softened xs (take n xs)"
proof (induction xs arbitrary: n)
  case Nil
  show ?case by (simp add: softened.nil)
next
  case (Cons x xs)
  show ?case by (cases n) (auto intro: softened.intros softened_Nil Cons)
qed

lemma softened_filter: "softened xs (filter P xs)"
  by (induction xs) (auto intro: softened.intros)

lemma softened_tl: "softened xs (tl xs)"
  by (cases xs) (auto intro: softened.intros softened_refl)

lemma softened_replaceDoubleComma: "softened s (replaceDoubleComma s)"
  by (induction s rule: replaceDoubleComma.induct) (auto intro: softened.intros softened_refl)

lemma softened_replaceEscapedNewline: "softened s (replaceEscapedNewline s)"
  by (induction s rule: replaceEscapedNewline.induct) (auto intro: softened.intros softened_refl)

lemma softened_replaceCommaSpaces: "softened s (replaceCommaSpaces s)"
proof (induction s rule: replaceCommaSpaces.induct)
  case 1
  show ?case by (simp add: softened.nil)
next
  case (2 c cs)
  show ?case
  proof (cases "c = 44")
    case True
    have "softened cs (replaceCommaSpaces (dropWhile isWhiteSpace cs))"
      using softened_trans[OF softened_dropWhile "2.IH"(1)[OF True]] .
    then show ?thesis using True by (simp add: softened.blank)
  next
    case False
    then show ?thesis using "2.IH"(2) by (simp add: softened.keep)
  qed
qed

lemma softened_collapseWhitespace: "softened s (collapseWhitespace s)"
proof (induction s rule: collapseWhitespace.induct)
  case 1
  show ?case by (simp add: softened.nil)
next
  case (2 c cs)
  show ?case
  proof (cases "isWhiteSpace c")
    case True
    have "softened cs (collapseWhitespace (dropWhile isWhiteSpace cs))"
      using softened_trans[OF softened_dropWhile "2.IH"(1)[OF True]] .
    then show ?thesis using True by (simp add: softened.blank)
  next
    case False
    then show ?thesis using "2.IH"(2) by (simp add: softened.keep)
  qed
qed

lemma softened_removeQuotes: "softened s (removeQuotes s)"
proof (induction s rule: removeQuotes.induct)
  case 1
  show ?case by (simp add: softened.nil)
next
  case (2 c cs)
  show ?case
  proof (cases "take 3 (c # cs) = quoteArtifact")
    case True
    have "softened cs (removeQuotes (drop 2 cs))"
      using softened_trans[OF softened_drop "2.IH"(1)[OF True]] .
    then show ?thesis using True by (simp add: softened.drop)
  next
    case False
    then show ?thesis using "2.IH"(2,3) by (auto intro: softened.intros)
  qed
qed

lemma softened_stripTags: "softened s (stripTags s)"
proof (induction s rule: stripTags.induct)
  case 1
  show ?case by (simp add: softened.nil)
next
  case (2 c cs)
  show ?case
  proof (cases "c = 60 \<and> 62 \<in> set cs")
    case True
    have "softened cs (tl (dropWhile (\<lambda>d. d \<noteq> 62) cs))"
      using softened_trans[OF softened_dropWhile softened_tl] .
    then have "softened cs (stripTags (tl (dropWhile (\<lambda>d. d \<noteq> 62) cs)))"
      using softened_trans "2.IH"(1)[OF True] by blast
    then show ?thesis using True by (simp add: softened.drop)
  next
    case False
    then show ?thesis using "2.IH"(2) by (auto intro: softened.intros)
  qed
qed

lemma trim_eq_take: "\<exists>n. rev (dropWhile P (rev xs)) = take n xs"
proof -
  have "rev (dropWhile P (rev xs)) = rev (drop (length (takeWhile P (rev xs))) (rev xs))"
    by (simp add: dropWhile_eq_drop)
  also have "\<dots> = take (length xs - length (takeWhile P (rev xs))) xs"
    by (simp add: rev_drop)
  finally show ?thesis by blast
qed

lemma softened_trim: "softened s (trim s)"
proof -
  obtain n where "trim s = take n (dropWhile isWhiteSpace s)"
    unfolding trim_def using trim_eq_take by blast
  then show ?thesis
    using softened_trans[OF softened_dropWhile softened_take] by simp
qed

lemma softened_removeBrackets: "softened s (removeBrackets s)"
  unfolding removeBrackets_def by (rule softened_filter)

lemma softened_removeBackslashes: "softened s (removeBackslashes s)"
  unfolding removeBackslashes_def by (rule softened_filter)

lemma replaceDoubleComma_id: "44 \<notin> set s \<Longrightarrow> replaceDoubleComma s = s"
  by (induction s rule: replaceDoubleComma.induct) auto

lemma replaceCommaSpaces_id: "44 \<notin> set s \<Longrightarrow> replaceCommaSpaces s = s"
  by (induction s) auto

lemma replaceEscapedNewline_id: "92 \<notin> set s \<Longrightarrow> replaceEscapedNewline s = s"
  by (induction s rule: replaceEscapedNewline.induct) auto

lemma removeBackslashes_id: "92 \<notin> set s \<Longrightarrow> removeBackslashes s = s"
  unfolding removeBackslashes_def by (induction s) auto

lemma removeBrackets_id: "91 \<notin> set s \<Longrightarrow> 93 \<notin> set s \<Longrightarrow> removeBrackets s = s"
  unfolding removeBrackets_def by (induction s) auto

lemma removeQuotes_id: "34 \<notin> set s \<Longrightarrow> \<not> containsArtifact s \<Longrightarrow> removeQuotes s = s"
  by (induction s) auto

lemma stripTags_id_no_gt: "62 \<notin> set s \<Longrightarrow> stripTags s = s"
  by (induction s) auto

lemma stripTags_id: "noTag s \<Longrightarrow> stripTags s = s"
proof (induction s)
  case Nil
  show ?case by simp
next
  case (Cons c cs)
  show ?case
  proof (cases "c = 60")
    case True
    with Cons.prems have "62 \<notin> set cs" by (simp add: noTag_def)
    then show ?thesis using True by (simp add: stripTags_id_no_gt)
  next
    case False
    with Cons show ?thesis by (simp add: noTag_def)
  qed
qed

lemma no_comma_replaceCommaSpaces: "44 \<notin> set (replaceCommaSpaces s)"
  by (induction s rule: replaceCommaSpaces.induct) auto

lemma no_quote_removeQuotes: "34 \<notin> set (removeQuotes s)"
  by (induction s rule: removeQuotes.induct) auto

lemma no_bracket_removeBrackets: "91 \<notin> set (removeBrackets s)" "93 \<notin> set (removeBrackets s)"
  by (simp_all add: removeBrackets_def)

lemma no_backslash_removeBackslashes: "92 \<notin> set (removeBackslashes s)"
  by (simp add: removeBackslashes_def)

lemma softened_absent: "softened xs ys \<Longrightarrow> c \<noteq> 32 \<Longrightarrow> c \<notin> set xs \<Longrightarrow> c \<notin> set ys"
  using softened_set by fastforce

lemma softened_tagScan:
  "softened xs ys \<Longrightarrow>
     set (dropWhile (\<lambda>c. c \<noteq> 60) ys) \<subseteq> insert 32 (set (dropWhile (\<lambda>c. c \<noteq> 60) xs))"
proof (induction rule: softened.induct)
  case nil
  show ?case by simp
next
  case (drop xs ys x)
  have "set (dropWhile (\<lambda>c. c \<noteq> 60) xs) \<subseteq> set xs" by (rule set_dropWhileD[THEN subsetI]) 
  with drop.IH show ?case by auto
next
  case (keep xs ys x)
  show ?case
  proof (cases "x = 60")
    case True
    with softened_set[OF keep.hyps] show ?thesis by auto
  next
    case False
    with keep.IH show ?thesis by simp
  qed
next
  case (blank xs ys x)
  have "set (dropWhile (\<lambda>c. c \<noteq> 60) xs) \<subseteq> set xs" by (rule set_dropWhileD[THEN subsetI])
  with blank.IH show ?case by auto
qed

lemma softened_noTag: "softened xs ys \<Longrightarrow> noTag xs \<Longrightarrow> noTag ys"
  unfolding noTag_def using softened_tagScan by fastforce

lemma noTag_stripTags: "noTag (stripTags s)"
proof (induction s rule: stripTags.induct)
  case 1
  show ?case by (simp add: noTag_def)
next
  case (2 c cs)
  show ?case
  proof (cases "c = 60 \<and> 62 \<in> set cs")
    case True
    with "2.IH"(1) show ?thesis by simp
  next
    case False
    show ?thesis
    proof (cases "c = 60")
      case True
      with False have "62 \<notin> set cs" by simp
      then have "62 \<notin> set (stripTags cs)"
        using softened_absent[OF softened_stripTags] by simp
      with True False show ?thesis by (simp add: noTag_def)
    next
      case c: False
      with False "2.IH"(2) show ?thesis by (simp add: noTag_def)
    qed
  qed
qed

lemma dropWhile_unchanged: "xs \<noteq> [] \<Longrightarrow> \<not> P (hd xs) \<Longrightarrow> dropWhile P xs = xs"
  by (cases xs) auto

lemma trim_id: "edgesClean s \<Longrightarrow> trim s = s"
proof (cases s)
  case Nil
  then show ?thesis by (simp add: trim_def)
next
  case (Cons c cs)
  assume "edgesClean s"
  with Cons have h: "\<not> isWhiteSpace c" and l: "\<not> isWhiteSpace (last s)"
    by (simp_all add: edgesClean_def)
  from h Cons have a: "dropWhile isWhiteSpace s = s" by simp
  have "rev s \<noteq> []" using Cons by simp
  moreover have "\<not> isWhiteSpace (hd (rev s))" using l by (simp only: hd_rev not_False_eq_True)
  ultimately have "dropWhile isWhiteSpace (rev s) = rev s"
    by (rule dropWhile_unchanged)
  with a show ?thesis by (simp add: trim_def)
qed

lemma edgesClean_trim: "edgesClean (trim s)"
proof -
  define a where "a = dropWhile isWhiteSpace s"
  define b where "b = dropWhile isWhiteSpace (rev a)"
  have t: "trim s = rev b" by (simp add: trim_def a_def b_def)
  show ?thesis
  proof (cases "b = []")
    case True
    with t show ?thesis by (simp add: edgesClean_def)
  next
    case False
    then have hb: "\<not> isWhiteSpace (hd b)" unfolding b_def by (rule hd_dropWhile)
    from False have "a \<noteq> []" by (auto simp: b_def)
    then have ha: "\<not> isWhiteSpace (hd a)" unfolding a_def by (rule hd_dropWhile)
    have "b = drop (length (takeWhile isWhiteSpace (rev a))) (rev a)"
      by (simp add: b_def dropWhile_eq_drop)
    moreover from this False have "length (takeWhile isWhiteSpace (rev a)) < length (rev a)"
      by (metis drop_all leI)
    ultimately have "last b = last (rev a)" by (metis last_drop)
    also have "\<dots> = hd a" using \<open>a \<noteq> []\<close> by (simp add: last_rev)
    finally have lb: "\<not> isWhiteSpace (last b)" using ha by simp
    from False hb lb t show ?thesis
      by (simp add: edgesClean_def hd_rev last_rev)
  qed
qed

lemma collapseWhitespace_Nil_iff: "(collapseWhitespace s = []) = (s = [])"
  by (cases s) auto

lemma hd_collapseWhitespace:
  "s \<noteq> [] \<Longrightarrow> \<not> isWhiteSpace (hd s) \<Longrightarrow> hd (collapseWhitespace s) = hd s"
  by (cases s) auto

lemma dropWhile_collapse:
  "s = [] \<or> \<not> isWhiteSpace (hd s) \<Longrightarrow>
     dropWhile isWhiteSpace (collapseWhitespace s) = collapseWhitespace s"
  by (cases s) auto

lemma dropWhile_head: "dropWhile P xs = [] \<or> \<not> P (hd (dropWhile P xs))"
  using hd_dropWhile by blast

lemma collapseWhitespace_idem: "collapseWhitespace (collapseWhitespace s) = collapseWhitespace s"
proof (induction s rule: collapseWhitespace.induct)
  case 1
  show ?case by simp
next
  case (2 c cs)
  show ?case
  proof (cases "isWhiteSpace c")
    case True
    have sp: "isWhiteSpace 32" by (simp add: isWhiteSpace_def)
    have "dropWhile isWhiteSpace (collapseWhitespace (dropWhile isWhiteSpace cs))
            = collapseWhitespace (dropWhile isWhiteSpace cs)"
      by (rule dropWhile_collapse) (rule dropWhile_head)
    with True sp "2.IH"(1) show ?thesis by simp
  next
    case False
    with "2.IH"(2) show ?thesis by simp
  qed
qed

lemma last_dropWhile_keep:
  "dropWhile P xs \<noteq> [] \<Longrightarrow> last (dropWhile P xs) = last xs"
  by (induction xs) (auto split: if_splits)

lemma last_collapseWhitespace:
  "s \<noteq> [] \<Longrightarrow> \<not> isWhiteSpace (last s) \<Longrightarrow> last (collapseWhitespace s) = last s"
proof (induction s rule: collapseWhitespace.induct)
  case 1
  then show ?case by simp
next
  case (2 c cs)
  show ?case
  proof (cases "isWhiteSpace c")
    case True
    with "2.prems" have cs: "cs \<noteq> []" by auto
    with "2.prems" have l: "\<not> isWhiteSpace (last cs)" by simp
    from cs have "last cs \<in> set cs" by simp
    with l have d: "dropWhile isWhiteSpace cs \<noteq> []" by auto
    then have ld: "last (dropWhile isWhiteSpace cs) = last cs" by (rule last_dropWhile_keep)
    have e: "last (collapseWhitespace (dropWhile isWhiteSpace cs)) = last (dropWhile isWhiteSpace cs)"
      using "2.IH"(1)[OF True d] l ld by simp
    have n: "collapseWhitespace (dropWhile isWhiteSpace cs) \<noteq> []"
      using d by (simp only: collapseWhitespace_Nil_iff not_False_eq_True)
    have "last (collapseWhitespace (c # cs))
            = last (32 # collapseWhitespace (dropWhile isWhiteSpace cs))"
      using True by simp
    also have "\<dots> = last (collapseWhitespace (dropWhile isWhiteSpace cs))"
      using n by simp
    also have "\<dots> = last cs" using e ld by simp
    also have "\<dots> = last (c # cs)" using cs by simp
    finally show ?thesis .
  next
    case False
    show ?thesis
    proof (cases "cs = []")
      case True
      with False show ?thesis by simp
    next
      case cs: False
      with "2.prems" have "\<not> isWhiteSpace (last cs)" by simp
      with "2.IH"(2)[OF False cs] False cs show ?thesis
        by (simp add: collapseWhitespace_Nil_iff)
    qed
  qed
qed

lemma edgesClean_collapseWhitespace: "edgesClean s \<Longrightarrow> edgesClean (collapseWhitespace s)"
  unfolding edgesClean_def
  by (auto simp: collapseWhitespace_Nil_iff hd_collapseWhitespace last_collapseWhitespace)

lemma softened_basicCleanup: "softened s (basicCleanup s)"
  unfolding basicCleanup_def
  by (rule softened_trans[OF softened_replaceDoubleComma
        softened_trans[OF softened_replaceCommaSpaces
          softened_trans[OF softened_removeQuotes softened_removeBrackets]]])

lemma softened_finish: "softened s (collapseWhitespace (trim s))"
  by (rule softened_trans[OF softened_trim softened_collapseWhitespace])

lemma softened_seoCleanup: "softened s (seoCleanup s)"
  unfolding seoCleanup_def
  by (rule softened_trans[OF softened_stripTags
        softened_trans[OF softened_replaceEscapedNewline
          softened_trans[OF softened_removeBackslashes
            softened_trans[OF softened_basicCleanup softened_finish]]]])

lemma seoClean_seoCleanup: "seoClean (seoCleanup s)"
proof -
  define a where "a = removeBackslashes (replaceEscapedNewline (stripTags s))"
  define b where "b = replaceCommaSpaces (replaceDoubleComma a)"
  define c where "c = removeQuotes b"
  define d where "d = removeBrackets c"
  have t: "seoCleanup s = collapseWhitespace (trim d)"
    by (simp add: seoCleanup_def basicCleanup_def a_def b_def c_def d_def)
  have ab: "softened a b" unfolding b_def
    by (rule softened_trans[OF softened_replaceDoubleComma softened_replaceCommaSpaces])
  have bc: "softened b c" unfolding c_def by (rule softened_removeQuotes)
  have cd: "softened c d" unfolding d_def by (rule softened_removeBrackets)
  have dt: "softened d (seoCleanup s)" unfolding t by (rule softened_finish)
  have ad: "softened a d" by (rule softened_trans[OF ab softened_trans[OF bc cd]])
  have "noTag (stripTags s)" by (rule noTag_stripTags)
  moreover have "softened (stripTags s) a" unfolding a_def
    by (rule softened_trans[OF softened_replaceEscapedNewline softened_removeBackslashes])
  ultimately have "noTag a" using softened_noTag by blast
  then have tag: "noTag (seoCleanup s)"
    using softened_noTag ad dt by blast
  have "92 \<notin> set a" unfolding a_def by (rule no_backslash_removeBackslashes)
  then have "92 \<notin> set d" using softened_absent[OF ad] by simp
  then have bs: "92 \<notin> set (seoCleanup s)" using softened_absent[OF dt] by simp
  have "44 \<notin> set b" unfolding b_def by (rule no_comma_replaceCommaSpaces)
  then have "44 \<notin> set c" using softened_absent[OF bc] by simp
  then have "44 \<notin> set d" using softened_absent[OF cd] by simp
  then have co: "44 \<notin> set (seoCleanup s)" using softened_absent[OF dt] by simp
  have "34 \<notin> set c" unfolding c_def by (rule no_quote_removeQuotes)
  then have "34 \<notin> set d" using softened_absent[OF cd] by simp
  then have qu: "34 \<notin> set (seoCleanup s)" using softened_absent[OF dt] by simp
  have "91 \<notin> set d" "93 \<notin> set d" unfolding d_def by (rule no_bracket_removeBrackets)+
  then have br: "91 \<notin> set (seoCleanup s)" "93 \<notin> set (seoCleanup s)"
    using softened_absent[OF dt] by simp_all
  have ec: "edgesClean (seoCleanup s)"
    unfolding t by (rule edgesClean_collapseWhitespace) (rule edgesClean_trim)
  have cw: "collapseWhitespace (seoCleanup s) = seoCleanup s"
    unfolding t by (rule collapseWhitespace_idem)
  show ?thesis
    unfolding seoClean_def using co qu br bs tag ec cw by blast
qed

lemma basicCleanup_id:
  "44 \<notin> set t \<Longrightarrow> 34 \<notin> set t \<Longrightarrow> 91 \<notin> set t \<Longrightarrow> 93 \<notin> set t \<Longrightarrow> \<not> containsArtifact t
     \<Longrightarrow> basicCleanup t = t"
  by (simp add: basicCleanup_def replaceDoubleComma_id replaceCommaSpaces_id removeQuotes_id
      removeBrackets_id)

lemma seoCleanup_id: "seoClean t \<Longrightarrow> \<not> containsArtifact t \<Longrightarrow> seoCleanup t = t"
  unfolding seoClean_def
  by (simp add: seoCleanup_def stripTags_id replaceEscapedNewline_id removeBackslashes_id
      basicCleanup_id trim_id)

lemma length_removeQuotes: "containsArtifact s \<Longrightarrow> length (removeQuotes s) < length s"
proof (induction s rule: removeQuotes.induct)
  case 1
  then show ?case by simp
next
  case (2 c cs)
  show ?case
  proof (cases "take 3 (c # cs) = quoteArtifact")
    case True
    have "length (removeQuotes (drop 2 cs)) \<le> length (drop 2 cs)"
      by (rule softened_length[OF softened_removeQuotes])
    with True show ?thesis by simp
  next
    case False
    with "2.prems" have ca: "containsArtifact cs" by simp
    show ?thesis
    proof (cases "c = 34")
      case True
      with False "2.IH"(2) ca show ?thesis by simp
    next
      case c: False
      with False "2.IH"(3) ca show ?thesis by simp
    qed
  qed
qed

lemma basicCleanup_shrinks:
  assumes "44 \<notin> set t" and "containsArtifact t"
  shows "length (basicCleanup t) < length t"
proof -
  have "basicCleanup t = removeBrackets (removeQuotes t)"
    using assms(1) by (simp add: basicCleanup_def replaceDoubleComma_id replaceCommaSpaces_id)
  moreover have "length (removeBrackets (removeQuotes t)) \<le> length (removeQuotes t)"
    by (rule softened_length[OF softened_removeBrackets])
  ultimately show ?thesis using length_removeQuotes[OF assms(2)] by simp
qed

lemma containsArtifact_mem: "containsArtifact s \<Longrightarrow> 8218 \<in> set s"
  by (induction s) (auto simp: quoteArtifact_def dest: in_set_takeD)


lemma basicCleanup_bulletMessage: "basicCleanup bulletMessage = bulletMessage"
  by (simp add: bulletMessage_def basicCleanup_def removeBrackets_def quoteArtifact_def
      str_def isWhiteSpace_def)

lemma matchBullets_bulletMessage: "matchBullets bulletMessage = []"
  by (simp add: bulletMessage_def str_def bulletAt_def bulletMarker_def)

lemma appendBulletList_bulletMessage: "appendBulletList bulletMessage = bulletMessage"
  by (simp add: appendBulletList_def matchBullets_bulletMessage)

lemma descriptionFormat_bulletMessage:
  "descriptionFormat bulletMessage
     = str ''<p>'' @ [8226, 32] @ str ''Durable</p><p>'' @ [8226, 32] @ str ''Dishwasher safe</p>''"
  unfolding descriptionFormat_def appendBulletList_bulletMessage
  by (simp add: wrapParagraphs_def bulletMessage_def str_def trim_def isWhiteSpace_def)

lemma basicCleanup_markerMessage: "basicCleanup markerMessage = markerMessage"
  by (simp add: markerMessage_def basicCleanup_def removeBrackets_def quoteArtifact_def
      bulletMarker_def str_def isWhiteSpace_def)

lemma matchBullets_markerMessage:
  "matchBullets markerMessage
     = [bulletMarker @ [32] @ str ''Durable'', bulletMarker @ [32] @ str ''Dishwasher safe'']"
  by (simp add: markerMessage_def str_def bulletAt_def bulletMarker_def isLineTerminator_def)

lemma removeBullets_markerMessage: "removeBullets markerMessage = [10]"
  by (simp add: markerMessage_def str_def bulletAt_def bulletMarker_def isLineTerminator_def)

lemma appendBulletList_markerMessage:
  "appendBulletList markerMessage
     = [10] @ str ''<ul><li>Durable</li><li>Dishwasher safe</li></ul>''"
  unfolding appendBulletList_def Let_def matchBullets_markerMessage removeBullets_markerMessage
  by (simp add: str_def bulletMarker_def isWhiteSpace_def)

lemma descriptionFormat_markerMessage:
  "descriptionFormat markerMessage
     = str ''<p><ul><li>Durable</li><li>Dishwasher safe</li></ul></p>''"
  unfolding descriptionFormat_def appendBulletList_markerMessage
  by (simp add: wrapParagraphs_def str_def trim_def isWhiteSpace_def)

lemma description_mode:
  "getGeneratedText (str ''description'') resp (Some (str ''description''))
     = descriptionFormat (basicCleanup (responseText resp))"
  using kinds_differ by (simp add: getGeneratedText_def Let_def)

text \<open>
  C3. In description mode the response \<open>{message: "\<bullet> Durable\n\<bullet> Dishwasher safe"}\<close>
  is claimed to normalize to \<open><ul><li>Durable</li><li>Dishwasher safe</li></ul>\<close>. The
  code yields two paragraph blocks instead, one per line with its bullet: the bullet pattern
  of the source file is the three code units of \<open>bulletMarker\<close>, which the bullet
  character U+2022 does not match. With the marker spelt as in the source file the items
  are collected into one list block, which the paragraph step then wraps in a paragraph
  block.
\<close>

theorem bullet_message_description_output:
  "getGeneratedText (str ''description'') (Structured bulletMessage) (Some (str ''description''))
     = str ''<p>'' @ [8226, 32] @ str ''Durable</p><p>'' @ [8226, 32] @ str ''Dishwasher safe</p>''
   \<and> getGeneratedText (str ''description'') (Structured bulletMessage) (Some (str ''description''))
     \<noteq> str ''<ul><li>Durable</li><li>Dishwasher safe</li></ul>''
   \<and> getGeneratedText (str ''description'') (Structured markerMessage) (Some (str ''description''))
     = str ''<p><ul><li>Durable</li><li>Dishwasher safe</li></ul></p>''"
proof -
  have a: "getGeneratedText (str ''description'') (Structured bulletMessage) (Some (str ''description''))
     = str ''<p>'' @ [8226, 32] @ str ''Durable</p><p>'' @ [8226, 32] @ str ''Dishwasher safe</p>''"
    by (simp only: description_mode responseText_def response.case basicCleanup_bulletMessage
        descriptionFormat_bulletMessage)
  have b: "getGeneratedText (str ''description'') (Structured markerMessage) (Some (str ''description''))
     = str ''<p><ul><li>Durable</li><li>Dishwasher safe</li></ul></p>''"
    by (simp only: description_mode responseText_def response.case basicCleanup_markerMessage
        descriptionFormat_markerMessage)
  have c: "str ''<p>'' @ [8226, 32] @ str ''Durable</p><p>'' @ [8226, 32] @ str ''Dishwasher safe</p>''
      \<noteq> str ''<ul><li>Durable</li><li>Dishwasher safe</li></ul>''"
    by (simp add: str_def)
  show ?thesis using a b c by simp
qed

lemma seoCleanup_nestedArtifact:
  "basicCleanup nestedArtifact = nestedArtifact"
  "seoCleanup nestedArtifact = quoteArtifact"
  "basicCleanup quoteArtifact = []"
  "seoCleanup [] = []"
  by (simp_all add: nestedArtifact_def seoCleanup_def basicCleanup_def removeBrackets_def
      removeBackslashes_def quoteArtifact_def trim_def isWhiteSpace_def str_def)

text \<open>
  How far a second cleanup in seo-description mode can differ from the first: it does so
  exactly when the result of the first still contains the quote artifact, the only pattern
  of the cleanup that is longer than one code unit and is deleted. On an input without
  the code unit U+201A the second cleanup changes nothing, whatever markup tags and escaped
  newlines the input contains.
\<close>

lemma seo_cleanup_twice_iff_no_artifact:
  assumes "kindArg = Some (str ''seo-description'') \<or> kindOfState = str ''seo-description''"
  shows "((getGeneratedText kindOfState
            (RawText (getGeneratedText kindOfState (RawText s) kindArg)) kindArg
          = getGeneratedText kindOfState (RawText s) kindArg)
         = (\<not> containsArtifact (getGeneratedText kindOfState (RawText s) kindArg)))
       \<and> (8218 \<notin> set s \<longrightarrow>
          getGeneratedText kindOfState
            (RawText (getGeneratedText kindOfState (RawText s) kindArg)) kindArg
          = getGeneratedText kindOfState (RawText s) kindArg)"
proof -
  define t where "t = seoCleanup (basicCleanup s)"
  have g: "getGeneratedText kindOfState (RawText r) kindArg = seoCleanup (basicCleanup r)"
    for r using assms by (auto simp: getGeneratedText_def responseText_def Let_def)
  have cl: "seoClean t" unfolding t_def by (rule seoClean_seoCleanup)
  have pos: "seoCleanup (basicCleanup t) = t" if "\<not> containsArtifact t"
    using cl that by (simp add: basicCleanup_id seoCleanup_id seoClean_def)
  have neg: "seoCleanup (basicCleanup t) \<noteq> t" if "containsArtifact t"
  proof -
    have "length (seoCleanup (basicCleanup t)) \<le> length (basicCleanup t)"
      by (rule softened_length[OF softened_seoCleanup])
    moreover have "length (basicCleanup t) < length t"
      using cl that by (simp add: basicCleanup_shrinks seoClean_def)
    ultimately show ?thesis by auto
  qed
  have "softened s t" unfolding t_def
    by (rule softened_trans[OF softened_basicCleanup softened_seoCleanup])
  then have "8218 \<notin> set t" if "8218 \<notin> set s"
    using that softened_absent by simp
  then have "\<not> containsArtifact t" if "8218 \<notin> set s"
    using that containsArtifact_mem by blast
  with pos neg show ?thesis
    unfolding g t_def[symmetric] by blast
qed

lemma seo_cleanup_twice_taggedText:
  "getGeneratedText (str ''description'')
     (RawText (getGeneratedText (str ''description'') (RawText taggedText)
                 (Some (str ''seo-description''))))
     (Some (str ''seo-description''))
   = getGeneratedText (str ''description'') (RawText taggedText) (Some (str ''seo-description''))
   \<and> getGeneratedText (str ''description'') (RawText taggedText) (Some (str ''seo-description''))
     = str ''Soft warm wool''"
proof -
  have m: "Some (str ''seo-description'') = Some (str ''seo-description'')
             \<or> str ''description'' = str ''seo-description''" by simp
  have n: "8218 \<notin> set taggedText" by (simp add: taggedText_def str_def)
  have v: "getGeneratedText (str ''description'') (RawText taggedText) (Some (str ''seo-description''))
     = str ''Soft warm wool''"
    by (simp add: getGeneratedText_def responseText_def taggedText_def seoCleanup_def
        basicCleanup_def removeBrackets_def removeBackslashes_def quoteArtifact_def trim_def
        isWhiteSpace_def str_def)
  show ?thesis using seo_cleanup_twice_iff_no_artifact[OF m, of taggedText] n v by blast
qed

text \<open>
  C9. The cleanup of seo-description mode is claimed to be idempotent on every string. On
  the input \<open>nestedArtifact\<close>, which holds a markup tag between the halves of two quote
  artifacts, it is not: one cleanup strips the tag, which joins the halves, and deletes
  the inner artifact, which leaves the outer one as the result; a second cleanup deletes
  that one too and yields the empty string. The first alternative of the quote pattern in
  the source file is three code units long, U+201A, U+00C4, U+00FB, the bytes of the one
  character U+201E read in another encoding; deleting a single code unit could leave
  nothing for a second cleanup to delete.
\<close>

theorem seo_cleanup_not_idempotent_on_nested_artifact:
  "getGeneratedText (str ''seo-description'') (RawText nestedArtifact)
     (Some (str ''seo-description'')) = quoteArtifact
   \<and> getGeneratedText (str ''seo-description'')
       (RawText (getGeneratedText (str ''seo-description'') (RawText nestedArtifact)
                   (Some (str ''seo-description''))))
       (Some (str ''seo-description'')) = []
   \<and> getGeneratedText (str ''seo-description'')
       (RawText (getGeneratedText (str ''seo-description'') (RawText nestedArtifact)
                   (Some (str ''seo-description''))))
       (Some (str ''seo-description''))
     \<noteq> getGeneratedText (str ''seo-description'') (RawText nestedArtifact)
         (Some (str ''seo-description''))"
  by (simp add: getGeneratedText_def responseText_def seoCleanup_nestedArtifact)
     (simp add: quoteArtifact_def)

section \<open>Properties of the pagination fetcher\<close>

lemma pages_last:
  assumes "0 < k" and "j * k < n \<or> (j = 0 \<and> n = 0)" and "n \<le> j * k + k"
  shows "pageCount k n = Suc j"
proof (cases "n = 0")
  case True
  with assms have "j = 0" by auto
  with True assms(1) show ?thesis by (simp add: pageCount_def)
next
  case False
  with assms(2) have lt: "j * k < n" by auto
  have "(n + k - 1) div k = Suc j"
  proof (rule div_nat_eqI)
    show "k * Suc j \<le> n + k - 1" using lt assms(1) by (simp add: algebra_simps)
    show "n + k - 1 < k * Suc (Suc j)" using assms(1,3) by (simp add: algebra_simps)
  qed
  then show ?thesis by (simp add: pageCount_def)
qed

lemma pages_more:
  assumes "0 < k" and "j * k + k < n"
  shows "Suc j < pageCount k n"
proof -
  have "Suc (Suc j) * k \<le> n + k - 1" using assms by (simp add: algebra_simps)
  then have "Suc (Suc j) \<le> (n + k - 1) div k"
    using assms(1) by (simp only: less_eq_div_iff_mult_less_eq)
  then show ?thesis by (simp add: pageCount_def)
qed

lemma pagedSource_at:
  assumes "0 < k" and "k = min 100 P"
  shows "pagedSource xs P 100 (cursorBefore k j)
           = Returns \<lparr> errors = None, pageData = Some (pageOf xs k j) \<rparr>"
proof -
  have "(case cursorBefore k j of None \<Rightarrow> 0 | Some c \<Rightarrow> Suc c) = j * k"
    using assms(1) by (cases j) (simp_all add: cursorBefore_def)
  then show ?thesis using assms(2) by (simp add: pagedSource_def pageOf_def Let_def)
qed

lemma nodes_pageOf: "take (j * k) xs @ map snd (edges (pageOf xs k j)) = take (Suc j * k) xs"
proof -
  have "map snd (edges (pageOf xs k j)) = take k (drop (j * k) xs)"
    by (simp add: pageOf_def)
  then show ?thesis by (simp add: take_add[symmetric] add.commute)
qed

lemma hasNextPage_pageOf: "hasNextPage (pageOf xs k j) = (j * k + k < length xs)"
  by (simp add: pageOf_def)

lemma lastCursor_pageOf:
  assumes "0 < k" and "j * k + k < length xs"
  shows "lastCursor (edges (pageOf xs k j)) = cursorBefore k (Suc j)"
proof -
  have len: "length (take k (drop (j * k) xs)) = k" using assms by simp
  have ne: "take k (drop (j * k) xs) \<noteq> []" using len assms(1) by auto
  have e: "edges (pageOf xs k j) = zip [j * k..<j * k + k] (take k (drop (j * k) xs))"
    unfolding pageOf_def len by simp
  have "fst (last (zip [j * k..<j * k + k] (take k (drop (j * k) xs)))) = j * k + k - 1"
    using assms(1) ne len by (simp add: last_zip)
  moreover have "zip [j * k..<j * k + k] (take k (drop (j * k) xs)) \<noteq> []"
    using ne assms(1) by (cases "take k (drop (j * k) xs)") (simp_all add: upt_conv_Cons)
  ultimately show ?thesis
    unfolding e by (simp add: lastCursor_def cursorBefore_def)
qed

lemma fetchLoop_pagedSource:
  assumes "0 < k" and "k = min 100 P" and "j * k < length xs \<or> (j = 0 \<and> xs = [])"
  shows "fetchLoop (pagedSource xs P) (take (j * k) xs) (cursorBefore k j) sent
           = Some (Inr xs, sent @ map (cursorBefore k) [j..<pageCount k (length xs)])"
  using assms(3)
proof (induction "length xs - j * k" arbitrary: j sent rule: less_induct)
  case less
  show ?case
  proof (cases "j * k + k < length xs")
    case True
    have "Suc j < pageCount k (length xs)" using assms(1) True by (rule pages_more)
    then have upt: "[j..<pageCount k (length xs)] = j # [Suc j..<pageCount k (length xs)]"
      by (simp add: upt_conv_Cons)
    have step: "fetchLoop (pagedSource xs P) (take (Suc j * k) xs) (cursorBefore k (Suc j))
                  (sent @ [cursorBefore k j])
            = Some (Inr xs, (sent @ [cursorBefore k j])
                      @ map (cursorBefore k) [Suc j..<pageCount k (length xs)])"
    proof (rule less.hyps)
      show "length xs - Suc j * k < length xs - j * k" using True assms(1) by simp
      show "Suc j * k < length xs \<or> Suc j = 0 \<and> xs = []" using True by (simp add: add.commute)
    qed
    have "fetchLoop (pagedSource xs P) (take (j * k) xs) (cursorBefore k j) sent
            = fetchLoop (pagedSource xs P) (take (Suc j * k) xs) (cursorBefore k (Suc j))
                (sent @ [cursorBefore k j])"
      by (subst fetchLoop.simps)
         (simp only: pagedSource_at[OF assms(1,2)] outcome.case queryJson.simps option.case
            hasNextPage_pageOf True if_True nodes_pageOf lastCursor_pageOf[OF assms(1) True])
    then show ?thesis using step upt by simp
  next
    case False
    then have le: "length xs \<le> j * k + k" by simp
    have "pageCount k (length xs) = Suc j"
      using assms(1) less.prems le by (intro pages_last) auto
    then have upt: "[j..<pageCount k (length xs)] = [j]" by simp
    have "fetchLoop (pagedSource xs P) (take (j * k) xs) (cursorBefore k j) sent
            = Some (Inr (take (Suc j * k) xs), sent @ [cursorBefore k j])"
      by (subst fetchLoop.simps)
         (simp only: pagedSource_at[OF assms(1,2)] outcome.case queryJson.simps option.case
            hasNextPage_pageOf False if_False nodes_pageOf)
    then show ?thesis using le upt by (simp add: add.commute)
  qed
qed

lemma fetchLoopDashboard_pagedSource:
  assumes "0 < k" and "k = min 100 P" and "j * k < length xs \<or> (j = 0 \<and> xs = [])"
  shows "fetchLoopDashboard (pagedSource xs P) (take (j * k) xs) (cursorBefore k j) sent
           = Some (xs, sent @ map (cursorBefore k) [j..<pageCount k (length xs)])"
  using assms(3)
proof (induction "length xs - j * k" arbitrary: j sent rule: less_induct)
  case less
  show ?case
  proof (cases "j * k + k < length xs")
    case True
    have "Suc j < pageCount k (length xs)" using assms(1) True by (rule pages_more)
    then have upt: "[j..<pageCount k (length xs)] = j # [Suc j..<pageCount k (length xs)]"
      by (simp add: upt_conv_Cons)
    have step: "fetchLoopDashboard (pagedSource xs P) (take (Suc j * k) xs)
                  (cursorBefore k (Suc j)) (sent @ [cursorBefore k j])
            = Some (xs, (sent @ [cursorBefore k j])
                      @ map (cursorBefore k) [Suc j..<pageCount k (length xs)])"
    proof (rule less.hyps)
      show "length xs - Suc j * k < length xs - j * k" using True assms(1) by simp
      show "Suc j * k < length xs \<or> Suc j = 0 \<and> xs = []" using True by (simp add: add.commute)
    qed
    have "fetchLoopDashboard (pagedSource xs P) (take (j * k) xs) (cursorBefore k j) sent
            = fetchLoopDashboard (pagedSource xs P) (take (Suc j * k) xs)
                (cursorBefore k (Suc j)) (sent @ [cursorBefore k j])"
      by (subst fetchLoopDashboard.simps)
         (simp only: pagedSource_at[OF assms(1,2)] outcome.case queryJson.simps option.case
            hasNextPage_pageOf True if_True nodes_pageOf lastCursor_pageOf[OF assms(1) True]
            simp_thms if_False)
    then show ?thesis using step upt by simp
  next
    case False
    then have le: "length xs \<le> j * k + k" by simp
    have "pageCount k (length xs) = Suc j"
      using assms(1) less.prems le by (intro pages_last) auto
    then have upt: "[j..<pageCount k (length xs)] = [j]" by simp
    have "fetchLoopDashboard (pagedSource xs P) (take (j * k) xs) (cursorBefore k j) sent
            = Some (take (Suc j * k) xs, sent @ [cursorBefore k j])"
      by (subst fetchLoopDashboard.simps)
         (simp only: pagedSource_at[OF assms(1,2)] outcome.case queryJson.simps option.case
            hasNextPage_pageOf False if_False nodes_pageOf simp_thms)
    then show ?thesis using le upt by (simp add: add.commute)
  qed
qed

text \<open>
  C7. Against the synthetic source of the items \<open>xs\<close> with page size \<open>P\<close>, at least 1,
  both versions of the fetcher terminate and return exactly \<open>xs\<close>, in order. The requests
  they send are the first one without a cursor and then, for each further page, one with
  the cursor of the last item of the page before; the fetcher asks for 100 items, so the
  source serves \<open>min 100 P\<close> a page.
\<close>

theorem fetchPaginated_returns_all_items_in_order:
  assumes "1 \<le> P"
  shows "fetchPaginated (pagedSource xs P)
           = Some (Inr xs, map (cursorBefore (min 100 P)) [0..<pageCount (min 100 P) (length xs)])
         \<and> fetchPaginatedDashboard (pagedSource xs P)
           = Some (xs, map (cursorBefore (min 100 P)) [0..<pageCount (min 100 P) (length xs)])"
proof -
  have k: "0 < min 100 P" using assms by simp
  have s: "0 * min 100 P < length xs \<or> (0 = 0 \<and> xs = [])" by (cases xs) simp_all
  have c: "cursorBefore (min 100 P) 0 = None" by (simp add: cursorBefore_def)
  show ?thesis
    unfolding fetchPaginated_def fetchPaginatedDashboard_def
    using fetchLoop_pagedSource[OF k refl s, of "[]"]
      fetchLoopDashboard_pagedSource[OF k refl s, of "[]"] c
    by simp
qed

theorem fetchPaginated_returns_all_items_in_order_witness:
  "fetchPaginated (pagedSource [10, 20, 30, 40, 50 :: nat] 2)
     = Some (Inr [10, 20, 30, 40, 50], [None, Some 1, Some 3])
   \<and> fetchPaginatedDashboard (pagedSource [10, 20, 30, 40, 50 :: nat] 2)
     = Some ([10, 20, 30, 40, 50], [None, Some 1, Some 3])"
proof -
  have p: "(1::nat) \<le> 2" by simp
  have u: "[0..<3] = [0, 1, 2]" by (simp add: upt_rec)
  have "pageCount (min 100 2) (length [10, 20, 30, 40, 50 :: nat]) = 3"
    by (simp add: pageCount_def)
  then show ?thesis
    using fetchPaginated_returns_all_items_in_order[OF p, of "[10, 20, 30, 40, 50 :: nat]"] u by (simp add: cursorBefore_def)
qed

section \<open>Properties of the publish workflow and of reverting\<close>

text \<open>
  C5. When the POST to the content store fails (the request rejects, the response is not
  ok, or its body cannot be read), \<open>handlePublish\<close> leaves \<open>selectedItem\<close> as it was:
  the state differs from the one before only in the error message, the publishing flag and
  the error toast. The only request made is that POST: no request for the catalog
  mutation is sent.
\<close>

theorem publish_aborts_when_baseline_post_fails:
  assumes "selectedItem state = Some item"
    and "responseTruthy (apiResponse state) \<or> editedContent state \<noteq> []"
    and "externalFailure externalFetch = Some msg"
  shows "selectedItem (fst (handlePublish state externalFetch shopifyFetch)) = selectedItem state
       \<and> fst (handlePublish state externalFetch shopifyFetch)
           = state\<lparr> error := Some (if msg \<noteq> [] then msg
                                     else str ''Failed to publish content. Please try again.''),
                    successMessage := None,
                    isPublishing := False,
                    toastMessage := str ''Failed to publish content. Please try again.'',
                    toastError := True,
                    toastActive := True \<rparr>
       \<and> snd (handlePublish state externalFetch shopifyFetch)
           = [ContentStorePost (externalPayloadOf state item), ConsoleError (str ''Publish Error:'')]
       \<and> \<not> list_ex isUpdatePost (snd (handlePublish state externalFetch shopifyFetch))"
  using assms by (auto simp: handlePublish_def Let_def isUpdatePost_def)

theorem publish_aborts_when_baseline_post_fails_witness:
  "selectedItem (fst (handlePublish readyState serverDown accepted)) = Some helloProduct
   \<and> error (fst (handlePublish readyState serverDown accepted))
       = Some (str ''External API request failed: 503 Service Unavailable'')
   \<and> toastError (fst (handlePublish readyState serverDown accepted))
   \<and> \<not> list_ex isUpdatePost (snd (handlePublish readyState serverDown accepted))"
proof -
  have d: "decimal 503 = str ''503''"
    by (simp add: str_def)
  have f: "externalFailure serverDown
             = Some (str ''External API request failed: 503 Service Unavailable'')"
    by (simp add: externalFailure_def serverDown_def d) (simp add: str_def)
  have s: "selectedItem readyState = Some helloProduct" by (simp add: readyState_def)
  have c: "responseTruthy (apiResponse readyState) \<or> editedContent readyState \<noteq> []"
    by (simp add: readyState_def responseTruthy_def)
  have n: "str ''External API request failed: 503 Service Unavailable'' \<noteq> []"
    by (simp add: str_def)
  show ?thesis
    using publish_aborts_when_baseline_post_fails[OF s c f, of accepted] s n by (simp add: isUpdatePost_def)
qed

text \<open>
  C6. When the POST to the content store has succeeded and the POST for the catalog
  mutation fails, the state is the one the optimistic update set: \<open>selectedItem\<close> holds
  the new content, \<open>error\<close> is \<open>null\<close> and the success toast is shown. It is the same
  state as when the catalog mutation succeeds, and apart from the two requests the handler
  only writes to the console.
\<close>

theorem publish_keeps_optimistic_state_when_update_fails:
  assumes "selectedItem state = Some item"
    and "responseTruthy (apiResponse state) \<or> editedContent state \<noteq> []"
    and "externalFailure externalFetch = None"
    and "shopifyFailure shopifyFetch"
  shows "fst (handlePublish state externalFetch shopifyFetch)
           = state\<lparr> selectedItem := Some (updatedItemOf state item),
                    error := None,
                    successMessage := None,
                    isPublishing := False,
                    toastMessage := publishedToast state item,
                    toastError := False,
                    toastActive := True \<rparr>
       \<and> fst (handlePublish state externalFetch shopifyFetch)
           = fst (handlePublish state externalFetch accepted)
       \<and> (\<forall>e \<in> set (snd (handlePublish state externalFetch shopifyFetch)).
             e = ContentStorePost (externalPayloadOf state item)
             \<or> e = UpdatePost (updatePayloadOf state item)
             \<or> (\<exists>text. e = ConsoleError text))"
  using assms
  by (auto simp: handlePublish_def Let_def shopifyUpdateLog_def split: outcome.splits)

theorem publish_keeps_optimistic_state_when_update_fails_witness:
  "selectedItem (fst (handlePublish readyState accepted serverDown))
     = Some (helloProduct\<lparr> description := Some (str ''<p>A sturdy mug</p>''),
                           descriptionHtml := Some (str ''<p>A sturdy mug</p>'') \<rparr>)
   \<and> error (fst (handlePublish readyState accepted serverDown)) = None
   \<and> \<not> toastError (fst (handlePublish readyState accepted serverDown))
   \<and> toastActive (fst (handlePublish readyState accepted serverDown))"
proof -
  have f: "externalFailure accepted = None"
    by (simp add: externalFailure_def accepted_def)
  have g: "shopifyFailure serverDown"
    by (simp add: shopifyFailure_def serverDown_def)
  have s: "selectedItem readyState = Some helloProduct" by (simp add: readyState_def)
  have c: "responseTruthy (apiResponse readyState) \<or> editedContent readyState \<noteq> []"
    by (simp add: readyState_def responseTruthy_def)
  have k: "stateContentType readyState \<noteq> str ''seo-description''"
    using kinds_differ by (simp add: readyState_def)
  have e: "editedContent readyState = str ''<p>A sturdy mug</p>''"
    by (simp add: readyState_def)
  have n: "str ''<p>A sturdy mug</p>'' \<noteq> []" by (simp add: str_def)
  have u: "updatedItemOf readyState helloProduct
             = helloProduct\<lparr> description := Some (str ''<p>A sturdy mug</p>''),
                              descriptionHtml := Some (str ''<p>A sturdy mug</p>'') \<rparr>"
    using k n by (simp add: updatedItemOf_def generatedContentOf_def e)
  show ?thesis
    using publish_keeps_optimistic_state_when_update_fails[OF s c f g] u by simp
qed

text \<open>
  C8. On a row whose reverted flag of a kind is true, the revert handler of that kind shows
  a toast that is not an error, submits nothing and leaves the view state as it is; calling
  it again gives the same.
\<close>

theorem revert_of_reverted_row_is_noop:
  "(isDescriptionReverted item \<longrightarrow>
      handleRevertDescription st item
        = (st, [ToastShown (str ''Description has already been reverted to original content'')
                  False])
      \<and> \<not> list_ex isRevertSubmitted (snd (handleRevertDescription st item))
      \<and> \<not> list_ex isErrorToast (snd (handleRevertDescription st item))
      \<and> handleRevertDescription (fst (handleRevertDescription st item)) item
          = handleRevertDescription st item)
   \<and> (isSeoReverted item \<longrightarrow>
      handleRevertSeo st item
        = (st, [ToastShown
                  (str ''SEO description has already been reverted to original content'') False])
      \<and> \<not> list_ex isRevertSubmitted (snd (handleRevertSeo st item))
      \<and> \<not> list_ex isErrorToast (snd (handleRevertSeo st item))
      \<and> handleRevertSeo (fst (handleRevertSeo st item)) item = handleRevertSeo st item)"
  by (simp add: handleRevertDescription_def handleRevertSeo_def isRevertSubmitted_def
      isErrorToast_def)

theorem revert_of_reverted_row_is_noop_witness:
  "handleRevertDescription \<lparr> rows = [revertedRow], reverting = None \<rparr> revertedRow
     = (\<lparr> rows = [revertedRow], reverting = None \<rparr>,
        [ToastShown (str ''Description has already been reverted to original content'') False])
   \<and> handleRevertSeo \<lparr> rows = [revertedRow], reverting = None \<rparr> revertedRow
     = (\<lparr> rows = [revertedRow], reverting = None \<rparr>,
        [ToastShown (str ''SEO description has already been reverted to original content'')
           False])"
proof -
  have r: "isDescriptionReverted revertedRow" "isSeoReverted revertedRow"
    by (simp_all add: revertedRow_def)
  show ?thesis
    using revert_of_reverted_row_is_noop[of revertedRow "\<lparr> rows = [revertedRow], reverting = None \<rparr>"] r by blast
qed

lemma chooseMutation_collection_seo:
  assumes "itemType body = Some (str ''collection'')" and "bodyContentType body = Some (str ''seo'')"
  shows "chooseMutation body
           = Some (\<lparr> operation = CollectionUpdate, selectsUserErrors = False \<rparr>,
                   \<lparr> inputId = (case itemId body of None \<Rightarrow> [] | Some s \<Rightarrow> s),
                     inputDescriptionHtml = None,
                     inputSeoDescription = bodyOriginalContent body \<rparr>)"
proof -
  have a: "str ''collection'' \<noteq> str ''product''" by (simp add: str_def)
  have b: "str ''seo'' \<noteq> str ''description''" by (simp add: str_def)
  show ?thesis using assms a b by (simp add: chooseMutation_def Let_def)
qed

text \<open>
  C10. A revert request for the SEO description of a collection never gets a success
  response. When the request is well-formed the mutation is sent to the catalog with the
  original content as SEO description, and the response has status 500; whenever the
  catalog carries the mutation out, with or without user errors, the action fails with a
  TypeError, as the document does not select \<open>userErrors\<close>.
\<close>

theorem collection_seo_revert_never_succeeds:
  assumes "itemType body = Some (str ''collection'')" and "bodyContentType body = Some (str ''seo'')"
  shows "\<not> success (fst (action catalog body))
       \<and> (bodyAction body = Some (str ''revert'') \<and> truthy (itemId body)
            \<and> truthy (bodyOriginalContent body) \<longrightarrow>
          httpStatus (fst (action catalog body)) = 500
          \<and> snd (action catalog body)
              = [(\<lparr> operation = CollectionUpdate, selectsUserErrors = False \<rparr>,
                  \<lparr> inputId = (case itemId body of None \<Rightarrow> [] | Some s \<Rightarrow> s),
                    inputDescriptionHtml = None,
                    inputSeoDescription = bodyOriginalContent body \<rparr>)]
          \<and> (\<forall>errs. catalog CollectionUpdate
                        \<lparr> inputId = (case itemId body of None \<Rightarrow> [] | Some s \<Rightarrow> s),
                          inputDescriptionHtml = None,
                          inputSeoDescription = bodyOriginalContent body \<rparr> = Payload errs
                \<longrightarrow> fst (action catalog body) = ServerError TypeError))"
proof -
  have t: "truthy (itemType body)" using assms(1) by (simp add: truthy_def str_def)
  show ?thesis
    using t
    by (auto simp: action_def chooseMutation_collection_seo[OF assms] success_def httpStatus_def
        userErrorsField_def split: catalogResult.splits)
qed

theorem collection_seo_revert_never_succeeds_witness:
  "fst (action obligingCatalog collectionSeoRevert) = ServerError TypeError
   \<and> httpStatus (fst (action obligingCatalog collectionSeoRevert)) = 500
   \<and> \<not> success (fst (action obligingCatalog collectionSeoRevert))
   \<and> map (inputSeoDescription \<circ> snd) (snd (action obligingCatalog collectionSeoRevert))
       = [Some (str ''Summer mugs'')]"
proof -
  have a: "itemType collectionSeoRevert = Some (str ''collection'')"
      "bodyContentType collectionSeoRevert = Some (str ''seo'')"
      "bodyAction collectionSeoRevert = Some (str ''revert'')"
      "bodyOriginalContent collectionSeoRevert = Some (str ''Summer mugs'')"
    by (simp_all add: collectionSeoRevert_def)
  have b: "truthy (itemId collectionSeoRevert)" "truthy (bodyOriginalContent collectionSeoRevert)"
    by (simp_all add: collectionSeoRevert_def truthy_def str_def)
  have c: "obligingCatalog op input = Payload []" for op input
    by (simp add: obligingCatalog_def)
  show ?thesis
    using collection_seo_revert_never_succeeds[OF a(1,2), of obligingCatalog] a(3,4) b c
    by (simp add: httpStatus_def success_def)
qed

end
